theory Spec2Isabelle
  imports Complex_Main
begin

section \<open>Numbers\<close>

text \<open>
  The engine computes with \<open>float64\<close>. Finite values are modelled by \<open>real\<close> (exact
  arithmetic, no rounding and no overflow). The only non-finite value the code creates
  itself is \<open>math.Inf(1)\<close>: the braking distance of a vehicle that cannot brake, the
  distance between unconnected nodes, and the start value of the running minimum in
  \<open>computeMaxAllowedDistance\<close>. A \<open>float64\<close> that is finite or \<open>+Inf\<close> is an \<open>xreal\<close>;
  subtracting one from a finite value gives a finite value or \<open>-Inf\<close>, a \<open>bound\<close>.
\<close>

datatype xreal = Fin real | PInf

fun xadd :: "xreal \<Rightarrow> xreal \<Rightarrow> xreal" where
  "xadd (Fin a) (Fin b) = Fin (a + b)"
| "xadd (Fin a) PInf = PInf"
| "xadd PInf y = PInf"

fun xless :: "xreal \<Rightarrow> xreal \<Rightarrow> bool" where
  "xless (Fin a) (Fin b) = (a < b)"
| "xless (Fin a) PInf = True"
| "xless PInf y = False"

fun xle :: "xreal \<Rightarrow> xreal \<Rightarrow> bool" where
  "xle (Fin a) (Fin b) = (a \<le> b)"
| "xle x PInf = True"
| "xle PInf (Fin b) = False"

datatype bound = NegInf | Finite real | PosInf

text \<open>\<open>a - x\<close> for a finite \<open>a\<close> and \<open>x\<close> finite or \<open>+Inf\<close>.\<close>

fun sub_xreal :: "real \<Rightarrow> xreal \<Rightarrow> bound" where
  "sub_xreal a (Fin b) = Finite (a - b)"
| "sub_xreal a PInf = NegInf"

text \<open>\<open>b - a\<close> for a finite \<open>a\<close>.\<close>

fun bound_sub :: "bound \<Rightarrow> real \<Rightarrow> bound" where
  "bound_sub (Finite b) a = Finite (b - a)"
| "bound_sub NegInf a = NegInf"
| "bound_sub PosInf a = PosInf"

fun bound_less :: "bound \<Rightarrow> bound \<Rightarrow> bool" where
  "bound_less NegInf NegInf = False"
| "bound_less NegInf y = True"
| "bound_less (Finite a) (Finite b) = (a < b)"
| "bound_less (Finite a) PosInf = True"
| "bound_less (Finite a) NegInf = False"
| "bound_less PosInf y = False"

text \<open>\<open>math.MaxFloat64\<close>, the largest finite \<open>float64\<close>.\<close>

definition MaxFloat64 :: real where
  "MaxFloat64 = (2 ^ 53 - 1) * 2 ^ 971"

section \<open>Package kinematics\<close>

record ConstantAcceleration =
  AAcc :: real
  ADcc :: real
  VMaxVal :: real

text \<open>\<open>MotionModel\<close> is an interface; \<open>ConstantAcceleration\<close> is its only implementation.\<close>

type_synonym MotionModel = ConstantAcceleration

definition VMax :: "MotionModel \<Rightarrow> real" where
  "VMax c = VMaxVal c"

definition BrakingDistance :: "MotionModel \<Rightarrow> real \<Rightarrow> xreal" where
  "BrakingDistance c v =
     (if ADcc c \<le> 0 then PInf else Fin ((v * v) / (2 * ADcc c)))"

definition BrakingDistanceTo :: "MotionModel \<Rightarrow> real \<Rightarrow> real \<Rightarrow> xreal" where
  "BrakingDistanceTo c v targetV =
     (if ADcc c \<le> 0 then PInf
      else if v \<le> targetV then Fin 0
      else Fin ((v * v - targetV * targetV) / (2 * ADcc c)))"

definition VelocityAfterBraking :: "MotionModel \<Rightarrow> real \<Rightarrow> real \<Rightarrow> real" where
  "VelocityAfterBraking c v0 d =
     (if ADcc c \<le> 0 then v0
      else sqrt (max 0 (v0 * v0 - 2 * ADcc c * d)))"

definition AccelerateStep :: "MotionModel \<Rightarrow> real \<Rightarrow> real \<Rightarrow> real \<Rightarrow> real \<times> real" where
  "AccelerateStep c v targetV dt =
     (if AAcc c \<le> 0 \<or> v \<ge> targetV then (targetV * dt, targetV)
      else
        let tToTarget = (targetV - v) / AAcc c in
        if tToTarget \<le> dt then
          (let s1 = v * tToTarget + 0.5 * AAcc c * tToTarget * tToTarget;
               s2 = targetV * (dt - tToTarget)
           in (s1 + s2, targetV))
        else
          (let newV = v + AAcc c * dt
           in (v * dt + 0.5 * AAcc c * dt * dt, newV)))"

definition DecelerateStep :: "MotionModel \<Rightarrow> real \<Rightarrow> real \<Rightarrow> real \<Rightarrow> real \<times> real" where
  "DecelerateStep c v targetV dt =
     (if ADcc c \<le> 0 \<or> v \<le> targetV then (targetV * dt, targetV)
      else
        let tToTarget = (v - targetV) / ADcc c in
        if tToTarget \<le> dt then
          (let s1 = v * tToTarget - 0.5 * ADcc c * tToTarget * tToTarget;
               s2 = targetV * (dt - tToTarget)
           in (max 0 s1 + s2, targetV))
        else
          (let newV = v - ADcc c * dt
           in (max 0 (v * dt - 0.5 * ADcc c * dt * dt), newV)))"

section \<open>Package graph\<close>

type_synonym NodeID = string
type_synonym EdgeID = string
type_synonym PathID = string

record Coordinate =
  Coord_X :: real
  Coord_Y :: real

record Node =
  Node_ID :: NodeID
  Loc :: Coordinate
  Node_Type :: string

record Edge =
  Edge_ID :: EdgeID
  Edge_U :: NodeID
  Edge_V :: NodeID
  Edge_Length :: real
  SpeedLimit :: "real option"

record GraphData =
  Nodes :: "Node list"
  Edges :: "Edge list"

record Position =
  Pos_Edge :: EdgeID
  DistanceAlongEdge :: real

record PathInfo =
  Path_ID :: PathID
  Path_Route :: "NodeID list"
  Path_Length :: real

text \<open>
  Errors are values. Each constructor is one \<open>fmt.Errorf\<close> of the source; \<open>Wrapped\<close> is
  the \<open>%w\<close> wrapping with its prefix, and \<open>Panic\<close> a run-time panic (a write to a nil map,
  an index out of range, a call on a nil interface).
\<close>

datatype error =
    NodeExists NodeID
  | EdgeExists EdgeID
  | SourceNotFound EdgeID NodeID
  | TargetNotFound EdgeID NodeID
  | EdgeNotFound EdgeID
  | NoEdge NodeID NodeID
  | NoPath NodeID NodeID
  | AlreadyAtDestination NodeID
  | NoEdgesOnPath NodeID NodeID
  | NoRouteStops string
  | OnlyStop string
  | Wrapped string error
  | AtTime real error
  | Panic

text \<open>A Go map of maps, \<open>map[NodeID]map[NodeID]T\<close>.\<close>

type_synonym 'a table = "NodeID \<rightharpoonup> (NodeID \<rightharpoonup> 'a)"

text \<open>Reading \<open>m[i][j]\<close>: a missing row or entry reads as the zero value, with \<open>ok = false\<close>.\<close>

definition table_get :: "'a table \<Rightarrow> NodeID \<Rightarrow> NodeID \<Rightarrow> 'a option" where
  "table_get m i j = (case m i of None \<Rightarrow> None | Some row \<Rightarrow> row j)"

text \<open>Writing \<open>m[i][j] = x\<close>: a missing row is a nil map, and the write panics (\<open>None\<close>).\<close>

definition table_set :: "'a table \<Rightarrow> NodeID \<Rightarrow> NodeID \<Rightarrow> 'a \<Rightarrow> 'a table option" where
  "table_set m i j x = (case m i of None \<Rightarrow> None | Some row \<Rightarrow> Some (m(i \<mapsto> row(j \<mapsto> x))))"

definition dist_get :: "xreal table \<Rightarrow> NodeID \<Rightarrow> NodeID \<Rightarrow> xreal" where
  "dist_get m i j = (case table_get m i j of None \<Rightarrow> Fin 0 | Some d \<Rightarrow> d)"

definition next_get :: "NodeID table \<Rightarrow> NodeID \<Rightarrow> NodeID \<Rightarrow> NodeID" where
  "next_get m i j = (case table_get m i j of None \<Rightarrow> [] | Some n \<Rightarrow> n)"

record Graph =
  nodes :: "Node list"
  edges :: "Edge list"
  nodeMap :: "NodeID \<rightharpoonup> Node"
  edgeMap :: "EdgeID \<rightharpoonup> Edge"
  edgeByNodes :: "Edge table"
  dist_tab :: "xreal table option"
  nextNode :: "NodeID table"
  pathCache :: "PathID \<rightharpoonup> PathInfo"

definition AddNode :: "Graph \<Rightarrow> Node \<Rightarrow> error + Graph" where
  "AddNode g n =
     (if nodeMap g (Node_ID n) \<noteq> None then Inl (NodeExists (Node_ID n))
      else Inr (g\<lparr>nodes := nodes g @ [n],
                  nodeMap := (nodeMap g)(Node_ID n \<mapsto> n),
                  dist_tab := None\<rparr>))"

definition AddEdge :: "Graph \<Rightarrow> Edge \<Rightarrow> error + Graph" where
  "AddEdge g e =
     (if edgeMap g (Edge_ID e) \<noteq> None then Inl (EdgeExists (Edge_ID e))
      else if nodeMap g (Edge_U e) = None then Inl (SourceNotFound (Edge_ID e) (Edge_U e))
      else if nodeMap g (Edge_V e) = None then Inl (TargetNotFound (Edge_ID e) (Edge_V e))
      else
        let row = (case edgeByNodes g (Edge_U e) of None \<Rightarrow> Map.empty | Some r \<Rightarrow> r)
        in Inr (g\<lparr>edges := edges g @ [e],
                    edgeMap := (edgeMap g)(Edge_ID e \<mapsto> e),
                    edgeByNodes := (edgeByNodes g)(Edge_U e \<mapsto> row(Edge_V e \<mapsto> e)),
                    dist_tab := None\<rparr>))"

fun addNodes :: "Node list \<Rightarrow> Graph \<Rightarrow> error + Graph" where
  "addNodes [] g = Inr g"
| "addNodes (n # ns) g = (case AddNode g n of Inl e \<Rightarrow> Inl e | Inr g' \<Rightarrow> addNodes ns g')"

fun addEdges :: "Edge list \<Rightarrow> Graph \<Rightarrow> error + Graph" where
  "addEdges [] g = Inr g"
| "addEdges (e # es) g = (case AddEdge g e of Inl err \<Rightarrow> Inl err | Inr g' \<Rightarrow> addEdges es g')"

definition emptyGraph :: Graph where
  "emptyGraph = \<lparr>nodes = [], edges = [], nodeMap = Map.empty, edgeMap = Map.empty,
                 edgeByNodes = Map.empty, dist_tab = None, nextNode = Map.empty,
                 pathCache = Map.empty\<rparr>"

definition NewGraph :: "GraphData \<Rightarrow> error + Graph" where
  "NewGraph data =
     (case addNodes (Nodes data) emptyGraph of
        Inl e \<Rightarrow> Inl e
      | Inr g \<Rightarrow> addEdges (Edges data) g)"

definition pathKey :: "NodeID \<Rightarrow> NodeID \<Rightarrow> PathID" where
  "pathKey start end = start @ ''->'' @ end"

definition GetEdgeByID :: "Graph \<Rightarrow> EdgeID \<Rightarrow> error + Edge" where
  "GetEdgeByID g eid = (case edgeMap g eid of None \<Rightarrow> Inl (EdgeNotFound eid) | Some e \<Rightarrow> Inr e)"

definition GetEdge :: "Graph \<Rightarrow> NodeID \<Rightarrow> NodeID \<Rightarrow> error + Edge" where
  "GetEdge g u v =
     (case edgeByNodes g u of
        None \<Rightarrow> Inl (NoEdge u v)
      | Some m \<Rightarrow> (case m v of None \<Rightarrow> Inl (NoEdge u v) | Some e \<Rightarrow> Inr e))"

subsection \<open>Floyd-Warshall\<close>

text \<open>A loop over a slice whose body may panic.\<close>

fun forEach :: "('a \<Rightarrow> 's \<Rightarrow> 's option) \<Rightarrow> 'a list \<Rightarrow> 's \<Rightarrow> 's option" where
  "forEach f [] s = Some s"
| "forEach f (x # xs) s = (case f x s of None \<Rightarrow> None | Some s' \<Rightarrow> forEach f xs s')"

definition initRow :: "NodeID list \<Rightarrow> NodeID \<Rightarrow> (NodeID \<rightharpoonup> xreal)" where
  "initRow nodeIDs i = (fold (\<lambda>j row. row(j \<mapsto> PInf)) nodeIDs Map.empty)(i \<mapsto> Fin 0)"

definition initTables :: "NodeID list \<Rightarrow> xreal table \<times> NodeID table" where
  "initTables nodeIDs =
     fold (\<lambda>i (d, n). (d(i \<mapsto> initRow nodeIDs i), n(i \<mapsto> Map.empty))) nodeIDs
       (Map.empty, Map.empty)"

definition setEdge :: "Edge \<Rightarrow> xreal table \<times> NodeID table \<Rightarrow> (xreal table \<times> NodeID table) option" where
  "setEdge e = (\<lambda>(d, n).
     case table_set d (Edge_U e) (Edge_V e) (Fin (Edge_Length e)) of
       None \<Rightarrow> None
     | Some d' \<Rightarrow>
        (case table_set n (Edge_U e) (Edge_V e) (Edge_V e) of
           None \<Rightarrow> None
         | Some n' \<Rightarrow> Some (d', n')))"

definition relax :: "NodeID \<Rightarrow> NodeID \<Rightarrow> NodeID \<Rightarrow> xreal table \<times> NodeID table \<Rightarrow> (xreal table \<times> NodeID table) option" where
  "relax k i j = (\<lambda>(d, n).
     let dd = xadd (dist_get d i k) (dist_get d k j) in
     if xless dd (dist_get d i j) then
       (case table_set d i j dd of
          None \<Rightarrow> None
        | Some d' \<Rightarrow>
           (case table_set n i j (next_get n i k) of
              None \<Rightarrow> None
            | Some n' \<Rightarrow> Some (d', n')))
     else Some (d, n))"

definition computeShortestPaths :: "Graph \<Rightarrow> Graph option" where
  "computeShortestPaths g =
     (let nodeIDs = map Node_ID (nodes g) in
      case forEach setEdge (edges g) (initTables nodeIDs) of
        None \<Rightarrow> None
      | Some t0 \<Rightarrow>
         (case forEach (\<lambda>k. forEach (\<lambda>i. forEach (\<lambda>j. relax k i j) nodeIDs) nodeIDs) nodeIDs t0 of
            None \<Rightarrow> None
          | Some (d, n) \<Rightarrow> Some (g\<lparr>dist_tab := Some d, nextNode := n, pathCache := Map.empty\<rparr>)))"

definition ensureShortestPaths :: "Graph \<Rightarrow> Graph option" where
  "ensureShortestPaths g = (if dist_tab g = None then computeShortestPaths g else Some g)"

text \<open>
  \<open>reconstructPath\<close> follows the next-hop table until it reaches \<open>v\<close>. Nothing bounds the
  walk (a table built over a negative cycle can send it round for ever), so the loop is a
  partial function: \<open>None\<close> is a walk that never ends. The nil slice of the source is \<open>[]\<close>.
\<close>

partial_function (option) reconstructLoop :: "NodeID table \<Rightarrow> NodeID \<Rightarrow> NodeID \<Rightarrow> NodeID list \<Rightarrow> NodeID list option" where
  "reconstructLoop nxt v u route =
     (if u \<noteq> v then
        (case table_get nxt u v of
           None \<Rightarrow> Some []
         | Some n \<Rightarrow> if n = [] then Some [] else reconstructLoop nxt v n (route @ [n]))
      else Some route)"

definition reconstructPath :: "Graph \<Rightarrow> NodeID \<Rightarrow> NodeID \<Rightarrow> NodeID list option" where
  "reconstructPath g u v = reconstructLoop (nextNode g) v u [u]"

text \<open>
  The graph caches what it computes, so every query returns the graph as well, also when
  it fails. \<open>None\<close> is a query that never returns.
\<close>

definition GetShortestPath :: "Graph \<Rightarrow> NodeID \<Rightarrow> NodeID \<Rightarrow> ((error + PathInfo) \<times> Graph) option" where
  "GetShortestPath g start end =
     (if start = end then
        Some (Inr \<lparr>Path_ID = pathKey start end, Path_Route = [start], Path_Length = 0\<rparr>, g)
      else
        let key = pathKey start end in
        case pathCache g key of
          Some p \<Rightarrow> Some (Inr p, g)
        | None \<Rightarrow>
           (case ensureShortestPaths g of
              None \<Rightarrow> Some (Inl Panic, g)
            | Some g1 \<Rightarrow>
               (case table_get (case dist_tab g1 of None \<Rightarrow> Map.empty | Some d \<Rightarrow> d) start end of
                  None \<Rightarrow> Some (Inl (NoPath start end), g1)
                | Some PInf \<Rightarrow> Some (Inl (NoPath start end), g1)
                | Some (Fin d) \<Rightarrow>
                   (case reconstructPath g1 start end of
                      None \<Rightarrow> None
                    | Some route \<Rightarrow>
                       let p = \<lparr>Path_ID = key, Path_Route = route, Path_Length = d\<rparr>
                       in Some (Inr p, g1\<lparr>pathCache := (pathCache g1)(key \<mapsto> p)\<rparr>)))))"

definition GetNextEdge :: "Graph \<Rightarrow> NodeID \<Rightarrow> NodeID \<Rightarrow> ((error + Edge) \<times> Graph) option" where
  "GetNextEdge g u dest =
     (case GetShortestPath g u dest of
        None \<Rightarrow> None
      | Some (Inl e, g') \<Rightarrow> Some (Inl e, g')
      | Some (Inr path, g') \<Rightarrow>
         if length (Path_Route path) < 2 then Some (Inl (AlreadyAtDestination dest), g')
         else Some (GetEdge g' (Path_Route path ! 0) (Path_Route path ! 1), g'))"

definition GetPathStartPosition :: "Graph \<Rightarrow> NodeID \<Rightarrow> NodeID \<Rightarrow> ((error + Position) \<times> Graph) option" where
  "GetPathStartPosition g u v =
     (case GetShortestPath g u v of
        None \<Rightarrow> None
      | Some (Inl e, g') \<Rightarrow> Some (Inl e, g')
      | Some (Inr path, g') \<Rightarrow>
         if length (Path_Route path) < 2 then Some (Inl (NoEdgesOnPath u v), g')
         else (case GetEdge g' (Path_Route path ! 0) (Path_Route path ! 1) of
                 Inl e \<Rightarrow> Some (Inl e, g')
               | Inr edge \<Rightarrow> Some (Inr \<lparr>Pos_Edge = Edge_ID edge, DistanceAlongEdge = 0\<rparr>, g')))"

section \<open>Package service\<close>

datatype ServiceState =
    StateStationary
  | StateDwelling
  | StateAccelerating
  | StateDecelerating
  | StateCruising

record RouteStop =
  Stop_NodeID :: NodeID
  TDwell :: real

text \<open>\<open>Kinem\<close> is an interface value: \<open>None\<close> is the nil interface of a vehicle that was
  never decoded, and a call on it panics.\<close>

record Vehicle =
  Name :: string
  Vehicle_Length :: real
  Kinem :: "MotionModel option"

record Service =
  ServiceID :: string
  InitialPosition :: NodeID
  Route :: "RouteStop list"
  Vehicle :: Vehicle
  DepartureDelay :: real

text \<open>\<open>SimService\<close> embeds \<open>Service\<close>.\<close>

record SimService = Service +
  CurrentPosition :: Position
  State :: ServiceState
  Velocity :: real
  RemainingDwell :: real
  NextStop :: NodeID
  nextStopIndex :: nat

definition GetFirstStop :: "'a Service_scheme \<Rightarrow> error + (NodeID \<times> nat)" where
  "GetFirstStop svc =
     (if length (Route svc) = 0 then Inl (NoRouteStops (ServiceID svc))
      else if InitialPosition svc = Stop_NodeID (Route svc ! 0) then
        (if length (Route svc) < 2 then Inl (OnlyStop (ServiceID svc))
         else Inr (Stop_NodeID (Route svc ! 1), 1))
      else Inr (Stop_NodeID (Route svc ! 0), 0))"

definition NewSimService :: "Service \<Rightarrow> Position \<Rightarrow> error + SimService" where
  "NewSimService svc initialPos =
     (case GetFirstStop svc of
        Inl e \<Rightarrow> Inl e
      | Inr (nextStop, nextStopIdx) \<Rightarrow>
         Inr \<lparr>ServiceID = ServiceID svc, InitialPosition = InitialPosition svc,
               Route = Route svc, Vehicle = Vehicle svc, DepartureDelay = DepartureDelay svc,
               CurrentPosition = initialPos, State = StateStationary, Velocity = 0,
               RemainingDwell = 0, NextStop = nextStop, nextStopIndex = nextStopIdx\<rparr>)"

definition svc_BrakingDistance :: "SimService \<Rightarrow> error + xreal" where
  "svc_BrakingDistance s =
     (case Kinem (Vehicle s) of
        None \<Rightarrow> Inl Panic
      | Some m \<Rightarrow> Inr (BrakingDistance m (Velocity s)))"

definition advanceNextStop :: "SimService \<Rightarrow> error + SimService" where
  "advanceNextStop s =
     (if length (Route s) = 0 then Inl Panic
      else
        let idx = (nextStopIndex s + 1) mod length (Route s)
        in Inr (s\<lparr>nextStopIndex := idx, NextStop := Stop_NodeID (Route s ! idx)\<rparr>))"

definition startDwell :: "SimService \<Rightarrow> error + SimService" where
  "startDwell s =
     (if nextStopIndex s < length (Route s) then
        advanceNextStop (s\<lparr>State := StateDwelling, Velocity := 0,
                            RemainingDwell := TDwell (Route s ! nextStopIndex s)\<rparr>)
      else Inl Panic)"

definition endDwell :: "SimService \<Rightarrow> SimService" where
  "endDwell s = s\<lparr>State := StateAccelerating, Velocity := 0, RemainingDwell := 0\<rparr>"

definition AdvanceDwell :: "SimService \<Rightarrow> real \<Rightarrow> error + SimService" where
  "AdvanceDwell s dt =
     (case (if State s \<noteq> StateDwelling then startDwell s else Inr s) of
        Inl e \<Rightarrow> Inl e
      | Inr s1 \<Rightarrow>
         let s2 = s1\<lparr>RemainingDwell := RemainingDwell s1 - dt\<rparr>
         in if RemainingDwell s2 \<le> 0 then Inr (endDwell s2) else Inr s2)"

definition ArriveAtStop :: "SimService \<Rightarrow> error + SimService" where
  "ArriveAtStop s = startDwell s"

record ServiceLog =
  Log_ServiceID :: string
  Log_CurrentPosition :: Position
  Log_State :: ServiceState
  Log_Velocity :: real
  Log_RemainingDwell :: real
  Log_NextStop :: NodeID

definition GetLog :: "SimService \<Rightarrow> ServiceLog" where
  "GetLog s = \<lparr>Log_ServiceID = ServiceID s, Log_CurrentPosition = CurrentPosition s,
               Log_State = State s, Log_Velocity = Velocity s,
               Log_RemainingDwell = RemainingDwell s, Log_NextStop = NextStop s\<rparr>"

section \<open>Package engine\<close>

record SimulationMeta =
  SimulationID :: string
  RunTime :: real
  TimeStep :: real

record SimulationInput =
  Input_Meta :: SimulationMeta
  Input_GraphData :: GraphData
  ServiceList :: "Service list"

record SimulationLogRow =
  Timestamp :: real
  ServiceLogs :: "ServiceLog list"

record SimulationLog =
  Log_Meta :: SimulationMeta
  Output :: "SimulationLogRow list"

record speedLimitInfo =
  currentMax :: real
  distToChange :: real
  nextMax :: real

record TMS =
  meta :: SimulationMeta
  graph :: Graph
  services :: "SimService list"
  curTime :: real

text \<open>The loop of \<open>NewTMS\<close> over the service list; the graph goes through every query.\<close>

fun placeServices :: "Service list \<Rightarrow> Graph \<Rightarrow> SimService list \<Rightarrow> (error + (SimService list \<times> Graph)) option" where
  "placeServices [] g acc = Some (Inr (acc, g))"
| "placeServices (svc # rest) g acc =
     (case GetFirstStop svc of
        Inl e \<Rightarrow> Some (Inl (Wrapped (''service '' @ ServiceID svc) e))
      | Inr (firstStop, idx) \<Rightarrow>
         (case GetPathStartPosition g (InitialPosition svc) firstStop of
            None \<Rightarrow> None
          | Some (Inl e, g') \<Rightarrow>
              Some (Inl (Wrapped (''service '' @ ServiceID svc @ '' initial position'') e))
          | Some (Inr initialPos, g') \<Rightarrow>
             (case NewSimService svc initialPos of
                Inl e \<Rightarrow> Some (Inl (Wrapped (''creating service '' @ ServiceID svc) e))
              | Inr simSvc \<Rightarrow> placeServices rest g' (acc @ [simSvc]))))"

definition NewTMS :: "SimulationInput \<Rightarrow> (error + TMS) option" where
  "NewTMS input =
     (case NewGraph (Input_GraphData input) of
        Inl e \<Rightarrow> Some (Inl (Wrapped ''building graph'' e))
      | Inr g \<Rightarrow>
         (case placeServices (ServiceList input) g [] of
            None \<Rightarrow> None
          | Some (Inl e) \<Rightarrow> Some (Inl e)
          | Some (Inr (svcs, g')) \<Rightarrow>
              Some (Inr \<lparr>meta = Input_Meta input, graph = g', services = svcs, curTime = 0\<rparr>)))"

definition distanceToNextStop :: "Graph \<Rightarrow> SimService \<Rightarrow> (error + (real \<times> Graph)) option" where
  "distanceToNextStop g svc =
     (case GetEdgeByID g (Pos_Edge (CurrentPosition svc)) of
        Inl e \<Rightarrow> Some (Inl e)
      | Inr edge \<Rightarrow>
         let remainingOnEdge = Edge_Length edge - DistanceAlongEdge (CurrentPosition svc) in
         if Edge_V edge = NextStop svc then Some (Inr (remainingOnEdge, g))
         else
           (case GetShortestPath g (Edge_V edge) (NextStop svc) of
              None \<Rightarrow> None
            | Some (Inl e, g') \<Rightarrow> Some (Inl (Wrapped (''no path to next stop '' @ NextStop svc) e))
            | Some (Inr path, g') \<Rightarrow> Some (Inr (remainingOnEdge + Path_Length path, g'))))"

definition getSpeedLimitInfo :: "Graph \<Rightarrow> SimService \<Rightarrow> (error + (speedLimitInfo \<times> Graph)) option" where
  "getSpeedLimitInfo g svc =
     (case GetEdgeByID g (Pos_Edge (CurrentPosition svc)) of
        Inl e \<Rightarrow> Some (Inl e)
      | Inr edge \<Rightarrow>
         (case Kinem (Vehicle svc) of
            None \<Rightarrow> Some (Inl Panic)
          | Some m \<Rightarrow>
             let currentMax0 = VMax m;
                 currentMax1 = (case SpeedLimit edge of
                                  None \<Rightarrow> currentMax0
                                | Some l \<Rightarrow> if l < currentMax0 then l else currentMax0);
                 distToChange1 = Edge_Length edge - DistanceAlongEdge (CurrentPosition svc)
             in
             if Edge_V edge = NextStop svc then
               Some (Inr (\<lparr>currentMax = currentMax1, distToChange = distToChange1, nextMax = 0\<rparr>, g))
             else
               (case GetNextEdge g (Edge_V edge) (NextStop svc) of
                  None \<Rightarrow> None
                | Some (r, g') \<Rightarrow>
                   let nextMax0 = VMax m;
                       nextMax1 = (case r of
                                     Inl e \<Rightarrow> nextMax0
                                   | Inr nextEdge \<Rightarrow>
                                      (case SpeedLimit nextEdge of
                                         None \<Rightarrow> nextMax0
                                       | Some l \<Rightarrow> if l < nextMax0 then l else nextMax0))
                   in Some (Inr (\<lparr>currentMax = currentMax1, distToChange = distToChange1,
                                   nextMax = nextMax1\<rparr>, g')))))"

text \<open>The running minimum of \<open>computeMaxAllowedDistance\<close>, one service of the slice at a time.\<close>

definition maxDistStep :: "SimService \<Rightarrow> (string \<rightharpoonup> xreal) \<Rightarrow> SimService \<Rightarrow> bound \<Rightarrow> bound" where
  "maxDistStep svc minMAs other maxDist =
     (if ServiceID other = ServiceID svc then maxDist
      else if Pos_Edge (CurrentPosition other) \<noteq> Pos_Edge (CurrentPosition svc) then maxDist
      else
        let otherPos = DistanceAlongEdge (CurrentPosition other);
            myPos = DistanceAlongEdge (CurrentPosition svc)
        in
        if otherPos \<le> myPos then maxDist
        else
          let safetyZoneStart =
                sub_xreal (otherPos - Vehicle_Length (Vehicle other))
                  (case minMAs (ServiceID other) of None \<Rightarrow> Fin 0 | Some b \<Rightarrow> b);
              allowed = bound_sub safetyZoneStart myPos
          in if bound_less allowed maxDist then allowed else maxDist)"

definition computeMaxAllowedDistance :: "SimService list \<Rightarrow> SimService \<Rightarrow> (string \<rightharpoonup> xreal) \<Rightarrow> real" where
  "computeMaxAllowedDistance svcs svc minMAs =
     (case fold (maxDistStep svc minMAs) svcs PosInf of
        PosInf \<Rightarrow> MaxFloat64
      | Finite x \<Rightarrow> max 0 x
      | NegInf \<Rightarrow> 0)"

text \<open>
  \<open>advancePosition\<close> walks the service along the graph until the distance is used up.
  Nothing in the code bounds the number of edges crossed (edges of length zero use up no
  distance), so the loop is a partial function.
\<close>

partial_function (option) advancePosition :: "Graph \<Rightarrow> SimService \<Rightarrow> real \<Rightarrow> (error + (bool \<times> SimService \<times> Graph)) option" where
  "advancePosition g svc d =
     (if d > 0 then
        (case GetEdgeByID g (Pos_Edge (CurrentPosition svc)) of
           Inl e \<Rightarrow> Some (Inl e)
         | Inr edge \<Rightarrow>
            if d < Edge_Length edge - DistanceAlongEdge (CurrentPosition svc) then
              Some (Inr (False,
                svc\<lparr>CurrentPosition := (CurrentPosition svc)
                      \<lparr>DistanceAlongEdge := DistanceAlongEdge (CurrentPosition svc) + d\<rparr>\<rparr>, g))
            else if Edge_V edge = NextStop svc then
              Some (Inr (True,
                svc\<lparr>CurrentPosition := (CurrentPosition svc)
                      \<lparr>DistanceAlongEdge := Edge_Length edge\<rparr>\<rparr>, g))
            else
              (case GetNextEdge g (Edge_V edge) (NextStop svc) of
                 None \<Rightarrow> None
               | Some (Inl e, g') \<Rightarrow> Some (Inl (Wrapped (''advancing past edge '' @ Edge_ID edge) e))
               | Some (Inr nextEdge, g') \<Rightarrow>
                  advancePosition g'
                    (svc\<lparr>CurrentPosition := \<lparr>Pos_Edge = Edge_ID nextEdge, DistanceAlongEdge = 0\<rparr>\<rparr>)
                    (d - (Edge_Length edge - DistanceAlongEdge (CurrentPosition svc)))))
      else Some (Inr (False, svc, g)))"

definition proposeMovement :: "SimService \<Rightarrow> real \<Rightarrow> real \<Rightarrow> speedLimitInfo \<Rightarrow> error + (real \<times> real \<times> ServiceState)" where
  "proposeMovement svc dt distToStop sl =
     (case Kinem (Vehicle svc) of
        None \<Rightarrow> Inl Panic
      | Some m \<Rightarrow>
         let v = Velocity svc;
             effectiveVMax = currentMax sl
         in
         if xle (Fin distToStop) (BrakingDistance m v) then
           (case DecelerateStep m v 0 dt of
              (d, newV) \<Rightarrow>
                if newV \<le> 0 then Inr (d, 0, StateDwelling)
                else Inr (d, newV, StateDecelerating))
         else if nextMax sl > 0 \<and> nextMax sl < effectiveVMax \<and> v > nextMax sl
                 \<and> xle (Fin (distToChange sl)) (BrakingDistanceTo m v (nextMax sl)) then
           (case DecelerateStep m v (nextMax sl) dt of
              (d, newV) \<Rightarrow>
                if newV \<le> nextMax sl then Inr (d, newV, StateCruising)
                else Inr (d, newV, StateDecelerating))
         else if v > effectiveVMax then
           (case DecelerateStep m v effectiveVMax dt of
              (d, newV) \<Rightarrow>
                if newV \<le> effectiveVMax then Inr (d, newV, StateCruising)
                else Inr (d, newV, StateDecelerating))
         else
           (case State svc of
              StateAccelerating \<Rightarrow>
                (case AccelerateStep m v effectiveVMax dt of
                   (d, newV) \<Rightarrow>
                     if newV \<ge> effectiveVMax then Inr (d, effectiveVMax, StateCruising)
                     else Inr (d, newV, StateAccelerating))
            | StateCruising \<Rightarrow> Inr (effectiveVMax * dt, effectiveVMax, StateCruising)
            | StateDecelerating \<Rightarrow>
                (case DecelerateStep m v 0 dt of
                   (d, newV) \<Rightarrow>
                     if newV \<le> 0 then Inr (d, 0, StateDwelling)
                     else Inr (d, newV, StateDecelerating))
            | _ \<Rightarrow> Inr (0, v, State svc)))"

definition constrainedKinematics :: "SimService \<Rightarrow> real \<Rightarrow> error + (real \<times> ServiceState)" where
  "constrainedKinematics svc grantedDist =
     (case Kinem (Vehicle svc) of
        None \<Rightarrow> Inl Panic
      | Some m \<Rightarrow>
         let newV = VelocityAfterBraking m (Velocity svc) grantedDist
         in if newV \<le> 0 then Inr (0, StateDwelling) else Inr (newV, StateDecelerating))"

text \<open>
  The second pass of \<open>step\<close> for a service that is neither stationary nor dwelling
  (the part of the loop body below the \<open>switch\<close>). The service is \<open>services t ! i\<close>; the
  other services are read from the same slice, so those earlier in the order are seen
  as already moved.
\<close>

definition moveService :: "real \<Rightarrow> (string \<rightharpoonup> xreal) \<Rightarrow> nat \<Rightarrow> TMS \<Rightarrow> (error + TMS) option" where
  "moveService dt minMAs i t =
     (let svc = services t ! i in
      case distanceToNextStop (graph t) svc of
        None \<Rightarrow> None
      | Some (Inl e) \<Rightarrow> Some (Inl (Wrapped (''service '' @ ServiceID svc @ '' distance to stop'') e))
      | Some (Inr (distToStop, g1)) \<Rightarrow>
         (case getSpeedLimitInfo g1 svc of
            None \<Rightarrow> None
          | Some (Inl e) \<Rightarrow> Some (Inl (Wrapped (''service '' @ ServiceID svc @ '' speed limit info'') e))
          | Some (Inr (sl, g2)) \<Rightarrow>
             (case proposeMovement svc dt distToStop sl of
                Inl e \<Rightarrow> Some (Inl e)
              | Inr (proposedDist, newVelocity, newState) \<Rightarrow>
                 let maxAllowed = computeMaxAllowedDistance (services t) svc minMAs;
                     grantedDist = min proposedDist maxAllowed
                 in
                 (case (if grantedDist < proposedDist then constrainedKinematics svc grantedDist
                        else Inr (newVelocity, newState)) of
                    Inl e \<Rightarrow> Some (Inl e)
                  | Inr (newVelocity', newState') \<Rightarrow>
                     (case advancePosition g2 svc grantedDist of
                        None \<Rightarrow> None
                      | Some (Inl e) \<Rightarrow> Some (Inl (Wrapped (''service '' @ ServiceID svc @ '' advance'') e))
                      | Some (Inr (arrived, svc1, g3)) \<Rightarrow>
                         if arrived then
                           (case ArriveAtStop svc1 of
                              Inl e \<Rightarrow> Some (Inl e)
                            | Inr svc2 \<Rightarrow>
                               Some (Inr (t\<lparr>graph := g3, services := (services t)[i := svc2]\<rparr>)))
                         else
                           Some (Inr (t\<lparr>graph := g3,
                                       services := (services t)
                                         [i := svc1\<lparr>Velocity := newVelocity', State := newState'\<rparr>]\<rparr>)))))))"

text \<open>The body of the second loop of \<open>step\<close> for the service at index \<open>i\<close>.\<close>

definition stepService :: "real \<Rightarrow> (string \<rightharpoonup> xreal) \<Rightarrow> nat \<Rightarrow> TMS \<Rightarrow> (error + TMS) option" where
  "stepService dt minMAs i t =
     (let svc = services t ! i in
      case State svc of
        StateStationary \<Rightarrow>
          if curTime t < DepartureDelay svc then Some (Inr t)
          else Some (Inr (t\<lparr>services := (services t)[i := svc\<lparr>State := StateAccelerating\<rparr>]\<rparr>))
      | StateDwelling \<Rightarrow>
          (case AdvanceDwell svc dt of
             Inl e \<Rightarrow> Some (Inl e)
           | Inr svc' \<Rightarrow> Some (Inr (t\<lparr>services := (services t)[i := svc']\<rparr>)))
      | _ \<Rightarrow> moveService dt minMAs i t)"

fun pass1 :: "SimService list \<Rightarrow> (string \<rightharpoonup> xreal) \<Rightarrow> error + (string \<rightharpoonup> xreal)" where
  "pass1 [] minMAs = Inr minMAs"
| "pass1 (svc # rest) minMAs =
     (case svc_BrakingDistance svc of
        Inl e \<Rightarrow> Inl e
      | Inr b \<Rightarrow> pass1 rest (minMAs(ServiceID svc \<mapsto> b)))"

fun pass2 :: "real \<Rightarrow> (string \<rightharpoonup> xreal) \<Rightarrow> nat list \<Rightarrow> TMS \<Rightarrow> (error + TMS) option" where
  "pass2 dt minMAs [] t = Some (Inr t)"
| "pass2 dt minMAs (i # rest) t =
     (case stepService dt minMAs i t of
        None \<Rightarrow> None
      | Some (Inl e) \<Rightarrow> Some (Inl e)
      | Some (Inr t') \<Rightarrow> pass2 dt minMAs rest t')"

definition step :: "TMS \<Rightarrow> (error + (SimulationLogRow \<times> TMS)) option" where
  "step t =
     (let dt = TimeStep (meta t) in
      case pass1 (services t) Map.empty of
        Inl e \<Rightarrow> Some (Inl e)
      | Inr minMAs \<Rightarrow>
         (case pass2 dt minMAs [0..<length (services t)] t of
            None \<Rightarrow> None
          | Some (Inl e) \<Rightarrow> Some (Inl e)
          | Some (Inr t') \<Rightarrow>
             Some (Inr (\<lparr>Timestamp = curTime t', ServiceLogs = map GetLog (services t')\<rparr>, t'))))"

text \<open>
  The loop of \<open>Run\<close>. It ends when \<open>curTime\<close> passes \<open>RunTime\<close>, which a time step that is
  not positive never brings about: the loop is a partial function, \<open>None\<close> when it runs
  for ever.
\<close>

partial_function (option) runLoop :: "TMS \<Rightarrow> SimulationLog \<Rightarrow> (error + SimulationLog) option" where
  "runLoop t lg =
     (if curTime t \<le> RunTime (meta t) then
        (case step t of
           None \<Rightarrow> None
         | Some (Inl e) \<Rightarrow> Some (Inl (AtTime (curTime t) e))
         | Some (Inr (row, t')) \<Rightarrow>
            runLoop (t'\<lparr>curTime := curTime t' + TimeStep (meta t')\<rparr>)
                    (lg\<lparr>Output := Output lg @ [row]\<rparr>))
      else Some (Inr lg))"

definition Run :: "TMS \<Rightarrow> (error + SimulationLog) option" where
  "Run t = runLoop t \<lparr>Log_Meta = meta t, Output = []\<rparr>"

section \<open>Example data\<close>

text \<open>Two nodes and one edge of length 10, the smallest network a service can run on.\<close>

definition nodeA :: Node where
  "nodeA = \<lparr>Node_ID = ''A'', Loc = \<lparr>Coord_X = 0, Coord_Y = 0\<rparr>, Node_Type = ''station''\<rparr>"

definition nodeB :: Node where
  "nodeB = \<lparr>Node_ID = ''B'', Loc = \<lparr>Coord_X = 10, Coord_Y = 0\<rparr>, Node_Type = ''station''\<rparr>"

definition edgeAB :: Edge where
  "edgeAB = \<lparr>Edge_ID = ''AB'', Edge_U = ''A'', Edge_V = ''B'', Edge_Length = 10,
              SpeedLimit = None\<rparr>"

definition lineAB :: GraphData where
  "lineAB = \<lparr>Nodes = [nodeA, nodeB], Edges = [edgeAB]\<rparr>"

text \<open>A vehicle that cannot brake (\<open>a_dcc = 0\<close>).\<close>

definition noBrakes :: MotionModel where
  "noBrakes = \<lparr>AAcc = 1, ADcc = 0, VMaxVal = 10\<rparr>"

definition unitModel :: MotionModel where
  "unitModel = \<lparr>AAcc = 1, ADcc = 1, VMaxVal = 10\<rparr>"

text \<open>
  A service waiting at \<open>B\<close>, the first stop of its route \<open>[B, A]\<close>, with one second of its
  dwell left: on arrival \<open>startDwell\<close> has already moved its next-stop pointer on to \<open>A\<close>.
\<close>

definition dwellingAtB :: SimService where
  "dwellingAtB =
     \<lparr>ServiceID = ''S1'', InitialPosition = ''A'',
      Route = [\<lparr>Stop_NodeID = ''B'', TDwell = 30\<rparr>, \<lparr>Stop_NodeID = ''A'', TDwell = 30\<rparr>],
      Vehicle = \<lparr>Name = ''Train'', Vehicle_Length = 50, Kinem = Some unitModel\<rparr>,
      DepartureDelay = 0,
      CurrentPosition = \<lparr>Pos_Edge = ''AB'', DistanceAlongEdge = 10\<rparr>,
      State = StateDwelling, Velocity = 0, RemainingDwell = 1, NextStop = ''A'',
      nextStopIndex = 1\<rparr>"

text \<open>The same service one step before it reaches \<open>B\<close>.\<close>

definition arrivingAtB :: SimService where
  "arrivingAtB = dwellingAtB\<lparr>State := StateDecelerating, Velocity := 2, RemainingDwell := 0,
                               NextStop := ''B'', nextStopIndex := 0\<rparr>"

definition dwellTMS :: TMS where
  "dwellTMS = \<lparr>meta = \<lparr>SimulationID = ''dwell'', RunTime = 100, TimeStep = 1\<rparr>,
                graph = emptyGraph, services = [dwellingAtB], curTime = 40\<rparr>"

text \<open>
  \<open>moved s s'\<close>: \<open>s'\<close> is \<open>s\<close> but for its position, what \<open>advancePosition\<close> may change.
\<close>

definition moved :: "SimService \<Rightarrow> SimService \<Rightarrow> bool" where
  "moved s s' \<longleftrightarrow>
     ServiceID s' = ServiceID s \<and> InitialPosition s' = InitialPosition s \<and>
     Route s' = Route s \<and> Vehicle s' = Vehicle s \<and> DepartureDelay s' = DepartureDelay s \<and>
     State s' = State s \<and> Velocity s' = Velocity s \<and>
     RemainingDwell s' = RemainingDwell s \<and> NextStop s' = NextStop s \<and>
     nextStopIndex s' = nextStopIndex s"

text \<open>\<open>same_static s s'\<close>: the static definition of the service (the embedded \<open>Service\<close>) is unchanged.\<close>

definition same_static :: "SimService \<Rightarrow> SimService \<Rightarrow> bool" where
  "same_static s s' \<longleftrightarrow>
     ServiceID s' = ServiceID s \<and> InitialPosition s' = InitialPosition s \<and>
     Route s' = Route s \<and> Vehicle s' = Vehicle s \<and> DepartureDelay s' = DepartureDelay s"

text \<open>
  \<open>RunJSON\<close> between decoding its input and encoding its log: \<open>NewTMS\<close>, then \<open>Run\<close>.
  (The JSON codec is Go's \<open>encoding/json\<close>, not code of the repository.)
\<close>

definition RunInput :: "SimulationInput \<Rightarrow> (error + SimulationLog) option" where
  "RunInput input =
     (case NewTMS input of
        None \<Rightarrow> None
      | Some (Inl e) \<Rightarrow> Some (Inl e)
      | Some (Inr tms) \<Rightarrow> Run tms)"

text \<open>
  The first \<open>n\<close> iterations of the loop of \<open>Run\<close>, when each of them returns a row: the
  rows, and the state the loop is in after them. \<open>None\<close> when one of them fails or does not
  return.
\<close>

fun runSteps :: "nat \<Rightarrow> TMS \<Rightarrow> (SimulationLogRow list \<times> TMS) option" where
  "runSteps 0 t = Some ([], t)"
| "runSteps (Suc n) t =
     (case step t of
        None \<Rightarrow> None
      | Some (Inl e) \<Rightarrow> None
      | Some (Inr (row, t')) \<Rightarrow>
         (case runSteps n (t'\<lparr>curTime := curTime t' + TimeStep (meta t')\<rparr>) of
            None \<Rightarrow> None
          | Some (rows, t'') \<Rightarrow> Some (row # rows, t'')))"

text \<open>A third node \<open>C\<close> that no edge reaches, and a service sent from \<open>A\<close> to \<open>B\<close> and then to \<open>C\<close>.\<close>

definition nodeC :: Node where
  "nodeC = \<lparr>Node_ID = ''C'', Loc = \<lparr>Coord_X = 20, Coord_Y = 0\<rparr>, Node_Type = ''station''\<rparr>"

definition jumpModel :: MotionModel where
  "jumpModel = \<lparr>AAcc = 0, ADcc = 1, VMaxVal = 10\<rparr>"

definition deadEndService :: Service where
  "deadEndService =
     \<lparr>ServiceID = ''S1'', InitialPosition = ''A'',
      Route = [\<lparr>Stop_NodeID = ''B'', TDwell = 0\<rparr>, \<lparr>Stop_NodeID = ''C'', TDwell = 0\<rparr>],
      Vehicle = \<lparr>Name = ''Train'', Vehicle_Length = 5, Kinem = Some jumpModel\<rparr>,
      DepartureDelay = 0\<rparr>"

definition deadEndInput :: SimulationInput where
  "deadEndInput =
     \<lparr>Input_Meta = \<lparr>SimulationID = ''dead-end'', RunTime = 3, TimeStep = 1\<rparr>,
      Input_GraphData = \<lparr>Nodes = [nodeA, nodeB, nodeC], Edges = [edgeAB]\<rparr>,
      ServiceList = [deadEndService]\<rparr>"

text \<open>\<open>graph_static g g'\<close>: the nodes and edges of the graph are unchanged (a query changes
  only the shortest-path tables and the path cache).\<close>

definition graph_static :: "Graph \<Rightarrow> Graph \<Rightarrow> bool" where
  "graph_static g g' \<longleftrightarrow>
     nodes g' = nodes g \<and> edges g' = edges g \<and> nodeMap g' = nodeMap g \<and>
     edgeMap g' = edgeMap g \<and> edgeByNodes g' = edgeByNodes g"

text \<open>The state \<open>NewTMS\<close> builds for an input it accepts (an empty one for any other input).\<close>

definition startOf :: "SimulationInput \<Rightarrow> TMS" where
  "startOf input =
     (case NewTMS input of
        Some (Inr tms) \<Rightarrow> tms
      | _ \<Rightarrow> \<lparr>meta = Input_Meta input, graph = emptyGraph, services = [], curTime = 0\<rparr>)"

text \<open>One train running from \<open>A\<close> to \<open>B\<close> and back, for two seconds.\<close>

definition shuttleService :: Service where
  "shuttleService =
     \<lparr>ServiceID = ''S1'', InitialPosition = ''A'',
      Route = [\<lparr>Stop_NodeID = ''B'', TDwell = 30\<rparr>, \<lparr>Stop_NodeID = ''A'', TDwell = 30\<rparr>],
      Vehicle = \<lparr>Name = ''Train'', Vehicle_Length = 5, Kinem = Some unitModel\<rparr>,
      DepartureDelay = 0\<rparr>"

definition shuttleInput :: SimulationInput where
  "shuttleInput =
     \<lparr>Input_Meta = \<lparr>SimulationID = ''shuttle'', RunTime = 2, TimeStep = 1\<rparr>,
      Input_GraphData = lineAB, ServiceList = [shuttleService]\<rparr>"

section \<open>The motion model\<close>

lemma BrakingDistanceTo_braking:
  "0 < ADcc c \<Longrightarrow> v \<le> targetV \<Longrightarrow> BrakingDistanceTo c v targetV = Fin 0"
  by (simp add: BrakingDistanceTo_def)

text \<open>
  C6. \<open>BrakingDistanceTo(v, vT)\<close> is documented to return 0 whenever \<open>v \<le> vT\<close>. The
  check of \<open>a_dcc\<close> comes first in the code: for a model with \<open>a_dcc = 0\<close> the call
  \<open>BrakingDistanceTo(5, 5)\<close> returns \<open>+Inf\<close>, not 0.
\<close>

theorem BrakingDistanceTo_noBrakes: "BrakingDistanceTo noBrakes 5 5 = PInf"
  by (simp add: BrakingDistanceTo_def noBrakes_def)

text \<open>
  C7. \<open>AccelerateStep(v, vT, dt)\<close> returns \<open>(vT * dt, vT)\<close> when \<open>a_acc \<le> 0\<close> or
  \<open>v \<ge> vT\<close>. Otherwise, with \<open>t* = (vT - v) / a_acc\<close>, it returns
  \<open>(v * t* + 1/2 * a_acc * t*^2 + vT * (dt - t*), vT)\<close> when \<open>t* \<le> dt\<close> and
  \<open>(v * dt + 1/2 * a_acc * dt^2, v + a_acc * dt)\<close> when \<open>t* > dt\<close>.
\<close>

theorem AccelerateStep_cases:
  "(AAcc c \<le> 0 \<or> v \<ge> vT \<longrightarrow> AccelerateStep c v vT dt = (vT * dt, vT)) \<and>
   (\<not> (AAcc c \<le> 0 \<or> v \<ge> vT) \<and> (vT - v) / AAcc c \<le> dt \<longrightarrow>
      AccelerateStep c v vT dt =
        (v * ((vT - v) / AAcc c) + 1 / 2 * AAcc c * ((vT - v) / AAcc c)\<^sup>2
           + vT * (dt - (vT - v) / AAcc c), vT)) \<and>
   (\<not> (AAcc c \<le> 0 \<or> v \<ge> vT) \<and> (vT - v) / AAcc c > dt \<longrightarrow>
      AccelerateStep c v vT dt = (v * dt + 1 / 2 * AAcc c * dt\<^sup>2, v + AAcc c * dt))"
  by (simp add: AccelerateStep_def Let_def power2_eq_square)

theorem AccelerateStep_cases_witness:
  "AccelerateStep unitModel 5 3 2 = (6, 3) \<and>
   AccelerateStep unitModel 0 1 2 = (3 / 2, 1) \<and>
   AccelerateStep unitModel 0 10 1 = (1 / 2, 1)"
  using AccelerateStep_cases [where c = unitModel and v = 5 and vT = 3 and dt = 2]
        AccelerateStep_cases [where c = unitModel and v = 0 and vT = 1 and dt = 2]
        AccelerateStep_cases [where c = unitModel and v = 0 and vT = 10 and dt = 1]
  by (simp add: unitModel_def)

section \<open>Shortest paths\<close>

text \<open>
  C10. For every string \<open>x\<close> and every graph, \<open>GetShortestPath(x, x)\<close> succeeds with the
  route \<open>[x]\<close> and length 0, whether or not \<open>x\<close> is a node: the test \<open>start == end\<close> comes
  before any lookup, so no error is possible.
\<close>

theorem GetShortestPath_same:
  "GetShortestPath g x x =
     Some (Inr \<lparr>Path_ID = pathKey x x, Path_Route = [x], Path_Length = 0\<rparr>, g)"
  by (simp add: GetShortestPath_def)

theorem GetShortestPath_same_witness:
  "GetShortestPath emptyGraph ''Z'' ''Z'' =
     Some (Inr \<lparr>Path_ID = ''Z->Z'', Path_Route = [''Z''], Path_Length = 0\<rparr>, emptyGraph)"
  using GetShortestPath_same [of emptyGraph "''Z''"]
  by (simp add: pathKey_def)

section \<open>Dwelling\<close>

lemma AdvanceDwell_dwelling:
  "State s = StateDwelling \<Longrightarrow>
   AdvanceDwell s dt =
     Inr (if RemainingDwell s - dt \<le> 0
          then s\<lparr>State := StateAccelerating, Velocity := 0, RemainingDwell := 0\<rparr>
          else s\<lparr>RemainingDwell := RemainingDwell s - dt\<rparr>)"
  by (simp add: AdvanceDwell_def endDwell_def Let_def)

lemma startDwell_result:
  "startDwell s = Inr s' \<Longrightarrow>
   s' = s\<lparr>State := StateDwelling, Velocity := 0,
          RemainingDwell := TDwell (Route s ! nextStopIndex s),
          nextStopIndex := (nextStopIndex s + 1) mod length (Route s),
          NextStop := Stop_NodeID (Route s ! ((nextStopIndex s + 1) mod length (Route s)))\<rparr>"
  by (auto simp: startDwell_def advanceNextStop_def Let_def split: if_splits)

text \<open>
  C5 as stated fails: the step at which the remaining dwell of \<open>dwellingAtB\<close> reaches 0
  puts the service into the accelerating state and leaves its next-stop pointer at
  index 1 (node \<open>A\<close>); advancing it modulo the route length would give index 0.
\<close>

theorem AdvanceDwell_keeps_pointer_counterexample:
  "State dwellingAtB = StateDwelling \<and> RemainingDwell dwellingAtB - 1 \<le> 0 \<and>
   AdvanceDwell dwellingAtB 1 =
     Inr (dwellingAtB\<lparr>State := StateAccelerating, Velocity := 0, RemainingDwell := 0\<rparr>) \<and>
   nextStopIndex dwellingAtB \<noteq> (nextStopIndex dwellingAtB + 1) mod length (Route dwellingAtB)"
  by (simp add: AdvanceDwell_def endDwell_def dwellingAtB_def Let_def)

text \<open>
  C5, amended. In a step a dwelling service has its remaining dwell decremented by \<open>dt\<close>;
  when the result is \<open>\<le> 0\<close> the service re-enters the accelerating state with velocity 0
  and remaining dwell 0. Its next-stop pointer is not touched by either case. The
  pointer is advanced cyclically, modulo the route length, when the dwell starts:
  \<open>startDwell\<close>, called on arrival at a stop, sets the state to dwelling, the velocity to
  0, the remaining dwell to the dwell time of the stop reached, and moves the pointer on.
\<close>

theorem dwell_step:
  "(State (services t ! i) = StateDwelling \<longrightarrow>
      stepService dt minMAs i t =
        Some (Inr (t\<lparr>services := (services t)
          [i := (if RemainingDwell (services t ! i) - dt \<le> 0
                 then (services t ! i)\<lparr>State := StateAccelerating, Velocity := 0,
                                         RemainingDwell := 0\<rparr>
                 else (services t ! i)\<lparr>RemainingDwell := RemainingDwell (services t ! i) - dt\<rparr>)]\<rparr>))) \<and>
   (ArriveAtStop s = Inr s' \<longrightarrow>
      State s' = StateDwelling \<and> Velocity s' = 0 \<and>
      RemainingDwell s' = TDwell (Route s ! nextStopIndex s) \<and>
      nextStopIndex s' = (nextStopIndex s + 1) mod length (Route s) \<and>
      NextStop s' = Stop_NodeID (Route s ! nextStopIndex s')) \<and>
   (nextStopIndex s < length (Route s) \<longrightarrow> (\<exists>s'. ArriveAtStop s = Inr s'))"
proof (intro conjI impI)
  assume "State (services t ! i) = StateDwelling"
  then show "stepService dt minMAs i t =
        Some (Inr (t\<lparr>services := (services t)
          [i := (if RemainingDwell (services t ! i) - dt \<le> 0
                 then (services t ! i)\<lparr>State := StateAccelerating, Velocity := 0,
                                         RemainingDwell := 0\<rparr>
                 else (services t ! i)\<lparr>RemainingDwell := RemainingDwell (services t ! i) - dt\<rparr>)]\<rparr>))"
    by (simp add: stepService_def Let_def AdvanceDwell_dwelling)
next
  assume a: "ArriveAtStop s = Inr s'"
  from startDwell_result [of s s'] a
  have s': "s' = s\<lparr>State := StateDwelling, Velocity := 0,
          RemainingDwell := TDwell (Route s ! nextStopIndex s),
          nextStopIndex := (nextStopIndex s + 1) mod length (Route s),
          NextStop := Stop_NodeID (Route s ! ((nextStopIndex s + 1) mod length (Route s)))\<rparr>"
    by (simp add: ArriveAtStop_def)
  show "State s' = StateDwelling" by (simp add: s')
  show "Velocity s' = 0" by (simp add: s')
  show "RemainingDwell s' = TDwell (Route s ! nextStopIndex s)" by (simp add: s')
  show "nextStopIndex s' = (nextStopIndex s + 1) mod length (Route s)" by (simp add: s')
  show "NextStop s' = Stop_NodeID (Route s ! nextStopIndex s')" by (simp add: s')
next
  assume "nextStopIndex s < length (Route s)"
  then show "\<exists>s'. ArriveAtStop s = Inr s'"
    by (auto simp: ArriveAtStop_def startDwell_def advanceNextStop_def Let_def)
qed

theorem dwell_step_witness:
  "stepService 1 Map.empty 0 dwellTMS =
     Some (Inr (dwellTMS\<lparr>services :=
       [dwellingAtB\<lparr>State := StateAccelerating, Velocity := 0, RemainingDwell := 0\<rparr>]\<rparr>)) \<and>
   (\<exists>s'. ArriveAtStop arrivingAtB = Inr s' \<and> State s' = StateDwelling \<and> Velocity s' = 0 \<and>
         RemainingDwell s' = 30 \<and> nextStopIndex s' = 1 \<and> NextStop s' = ''A'')"
proof -
  have idx: "nextStopIndex arrivingAtB < length (Route arrivingAtB)"
    by (simp add: arrivingAtB_def dwellingAtB_def)
  from dwell_step [where s = arrivingAtB] idx
  obtain s' where arr: "ArriveAtStop arrivingAtB = Inr s'"
    by blast
  from dwell_step [where s = arrivingAtB and s' = s'] arr
  have "State s' = StateDwelling \<and> Velocity s' = 0 \<and>
        RemainingDwell s' = TDwell (Route arrivingAtB ! nextStopIndex arrivingAtB) \<and>
        nextStopIndex s' = (nextStopIndex arrivingAtB + 1) mod length (Route arrivingAtB) \<and>
        NextStop s' = Stop_NodeID (Route arrivingAtB ! nextStopIndex s')"
    by blast
  then have 2: "State s' = StateDwelling \<and> Velocity s' = 0 \<and>
         RemainingDwell s' = 30 \<and> nextStopIndex s' = 1 \<and> NextStop s' = ''A''"
    by (simp add: arrivingAtB_def dwellingAtB_def)
  have dw: "State (services dwellTMS ! 0) = StateDwelling"
    by (simp add: dwellTMS_def dwellingAtB_def)
  from dwell_step [where t = dwellTMS and i = 0 and dt = 1 and minMAs = Map.empty] dw
  have "stepService 1 Map.empty 0 dwellTMS =
        Some (Inr (dwellTMS\<lparr>services := (services dwellTMS)
          [0 := (if RemainingDwell (services dwellTMS ! 0) - 1 \<le> 0
                 then (services dwellTMS ! 0)\<lparr>State := StateAccelerating, Velocity := 0,
                                         RemainingDwell := 0\<rparr>
                 else (services dwellTMS ! 0)\<lparr>RemainingDwell := RemainingDwell (services dwellTMS ! 0) - 1\<rparr>)]\<rparr>))"
    by blast
  then have 1: "stepService 1 Map.empty 0 dwellTMS =
     Some (Inr (dwellTMS\<lparr>services :=
       [dwellingAtB\<lparr>State := StateAccelerating, Velocity := 0, RemainingDwell := 0\<rparr>]\<rparr>))"
    by (simp add: dwellTMS_def dwellingAtB_def)
  from 1 2 arr show ?thesis by blast
qed

section \<open>What a step leaves alone\<close>

lemma moved_refl: "moved s s"
  by (simp add: moved_def)

lemma moved_position: "moved s (s\<lparr>CurrentPosition := p\<rparr>)"
  by (simp add: moved_def)

lemma moved_trans: "moved a b \<Longrightarrow> moved b c \<Longrightarrow> moved a c"
  by (simp add: moved_def)

lemma advancePosition_moved_aux:
  assumes "advancePosition g0 svc0 d0 = Some r0"
  shows "\<forall>arr svc' g'. r0 = Inr (arr, svc', g') \<longrightarrow> moved svc0 svc'"
proof (rule advancePosition.raw_induct
    [where P = "\<lambda>g svc d r. \<forall>arr svc' g'. r = Inr (arr, svc', g') \<longrightarrow> moved svc svc'",
     OF _ assms])
  fix adv :: "Graph \<Rightarrow> SimService \<Rightarrow> real \<Rightarrow> (error + (bool \<times> SimService \<times> Graph)) option"
  fix g svc d r
  assume IH: "\<And>g svc d y. adv g svc d = Some y \<Longrightarrow>
                \<forall>arr svc' g'. y = Inr (arr, svc', g') \<longrightarrow> moved svc svc'"
  assume body: "(if d > 0 then
        (case GetEdgeByID g (Pos_Edge (CurrentPosition svc)) of
           Inl e \<Rightarrow> Some (Inl e)
         | Inr edge \<Rightarrow>
            if d < Edge_Length edge - DistanceAlongEdge (CurrentPosition svc) then
              Some (Inr (False,
                svc\<lparr>CurrentPosition := (CurrentPosition svc)
                      \<lparr>DistanceAlongEdge := DistanceAlongEdge (CurrentPosition svc) + d\<rparr>\<rparr>, g))
            else if Edge_V edge = NextStop svc then
              Some (Inr (True,
                svc\<lparr>CurrentPosition := (CurrentPosition svc)
                      \<lparr>DistanceAlongEdge := Edge_Length edge\<rparr>\<rparr>, g))
            else
              (case GetNextEdge g (Edge_V edge) (NextStop svc) of
                 None \<Rightarrow> None
               | Some (Inl e, g') \<Rightarrow> Some (Inl (Wrapped (''advancing past edge '' @ Edge_ID edge) e))
               | Some (Inr nextEdge, g') \<Rightarrow>
                  adv g'
                    (svc\<lparr>CurrentPosition := \<lparr>Pos_Edge = Edge_ID nextEdge, DistanceAlongEdge = 0\<rparr>\<rparr>)
                    (d - (Edge_Length edge - DistanceAlongEdge (CurrentPosition svc)))))
      else Some (Inr (False, svc, g))) = Some r"
  show "\<forall>arr svc' g'. r = Inr (arr, svc', g') \<longrightarrow> moved svc svc'"
  proof (cases "d > 0")
    case False
    with body show ?thesis by (auto simp: moved_refl)
  next
    case pos: True
    show ?thesis
    proof (cases "GetEdgeByID g (Pos_Edge (CurrentPosition svc))")
      case (Inl e)
      with body pos show ?thesis by auto
    next
      case (Inr edge)
      show ?thesis
      proof (cases "d < Edge_Length edge - DistanceAlongEdge (CurrentPosition svc)")
        case True
        with body pos Inr show ?thesis by (auto simp: moved_position)
      next
        case far: False
        show ?thesis
        proof (cases "Edge_V edge = NextStop svc")
          case True
          with body pos Inr far show ?thesis by (auto simp: moved_position)
        next
          case onward: False
          show ?thesis
          proof (cases "GetNextEdge g (Edge_V edge) (NextStop svc)")
            case None
            with body pos Inr far onward show ?thesis by simp
          next
            case (Some q)
            obtain res g' where q: "q = (res, g')" by (cases q)
            show ?thesis
            proof (cases res)
              case (Inl e)
              with body pos Inr far onward Some q show ?thesis by auto
            next
              case nxt: (Inr nextEdge)
              let ?svc2 = "svc\<lparr>CurrentPosition := \<lparr>Pos_Edge = Edge_ID nextEdge, DistanceAlongEdge = 0\<rparr>\<rparr>"
              from body pos Inr far onward Some q nxt
              have "adv g' ?svc2 (d - (Edge_Length edge - DistanceAlongEdge (CurrentPosition svc))) = Some r"
                by simp
              from IH [OF this] have "\<forall>arr svc' g'. r = Inr (arr, svc', g') \<longrightarrow> moved ?svc2 svc'" .
              then show ?thesis
                using moved_trans [OF moved_position] by blast
            qed
          qed
        qed
      qed
    qed
  qed
qed

lemma result_cases:
  fixes x :: "(error + 'a) option"
  obtains (Diverges) "x = None" | (Fails) e where "x = Some (Inl e)" | (Returns) a where "x = Some (Inr a)"
proof (cases x)
  case None
  then show ?thesis by (rule that(1))
next
  case (Some r)
  then show ?thesis by (cases r) (auto intro: that)
qed

lemma advancePosition_moved:
  "advancePosition g svc d = Some (Inr (arr, svc', g')) \<Longrightarrow> moved svc svc'"
  using advancePosition_moved_aux by blast

lemma moveService_SomeD:
  assumes "moveService dt m i t = Some (Inr t')"
  obtains d g1 sl g2 p nv ns nv' ns' arr svc1 g3 where
    "distanceToNextStop (graph t) (services t ! i) = Some (Inr (d, g1))"
    "getSpeedLimitInfo g1 (services t ! i) = Some (Inr (sl, g2))"
    "proposeMovement (services t ! i) dt d sl = Inr (p, nv, ns)"
    "(if min p (computeMaxAllowedDistance (services t) (services t ! i) m) < p
      then constrainedKinematics (services t ! i)
             (min p (computeMaxAllowedDistance (services t) (services t ! i) m))
      else Inr (nv, ns)) = Inr (nv', ns')"
    "advancePosition g2 (services t ! i)
       (min p (computeMaxAllowedDistance (services t) (services t ! i) m)) =
     Some (Inr (arr, svc1, g3))"
    "arr \<Longrightarrow> \<exists>svc2. ArriveAtStop svc1 = Inr svc2 \<and>
               t' = t\<lparr>graph := g3, services := (services t)[i := svc2]\<rparr>"
    "\<not> arr \<Longrightarrow> t' = t\<lparr>graph := g3,
                        services := (services t)[i := svc1\<lparr>Velocity := nv', State := ns'\<rparr>]\<rparr>"
proof -
  let ?svc = "services t ! i"
  obtain a1 where a1: "distanceToNextStop (graph t) ?svc = Some (Inr a1)"
    using assms
    by (cases "distanceToNextStop (graph t) ?svc" rule: result_cases)
       (simp_all add: moveService_def Let_def)
  obtain d g1 where dg: "a1 = (d, g1)" by (cases a1)
  note 1 = a1 [unfolded dg]
  obtain a2 where a2: "getSpeedLimitInfo g1 ?svc = Some (Inr a2)"
    using assms 1
    by (cases "getSpeedLimitInfo g1 ?svc" rule: result_cases)
       (simp_all add: moveService_def Let_def)
  obtain sl g2 where slg: "a2 = (sl, g2)" by (cases a2)
  note 2 = a2 [unfolded slg]
  obtain a3 where a3: "proposeMovement ?svc dt d sl = Inr a3"
    using assms 1 2
    by (cases "proposeMovement ?svc dt d sl") (simp_all add: moveService_def Let_def)
  obtain p nv ns where pv: "a3 = (p, nv, ns)" by (cases a3)
  note 3 = a3 [unfolded pv]
  let ?granted = "min p (computeMaxAllowedDistance (services t) ?svc m)"
  let ?ck = "if ?granted < p then constrainedKinematics ?svc ?granted else Inr (nv, ns)"
  have unf: "moveService dt m i t =
     (case ?ck of
        Inl e \<Rightarrow> Some (Inl e)
      | Inr (newVelocity', newState') \<Rightarrow>
         (case advancePosition g2 ?svc ?granted of
            None \<Rightarrow> None
          | Some (Inl e) \<Rightarrow> Some (Inl (Wrapped (''service '' @ ServiceID ?svc @ '' advance'') e))
          | Some (Inr (arrived, svc1, g3)) \<Rightarrow>
             if arrived then
               (case ArriveAtStop svc1 of
                  Inl e \<Rightarrow> Some (Inl e)
                | Inr svc2 \<Rightarrow>
                   Some (Inr (t\<lparr>graph := g3, services := (services t)[i := svc2]\<rparr>)))
             else
               Some (Inr (t\<lparr>graph := g3,
                           services := (services t)
                             [i := svc1\<lparr>Velocity := newVelocity', State := newState'\<rparr>]\<rparr>))))"
    unfolding moveService_def Let_def by (simp only: 1 2 3 option.case sum.case prod.case)
  obtain a4 where a4: "?ck = Inr a4"
    using assms unfolding unf by (cases ?ck) simp_all
  obtain nv' ns' where nvs: "a4 = (nv', ns')" by (cases a4)
  note 4 = a4 [unfolded nvs]
  obtain a5 where a5: "advancePosition g2 ?svc ?granted = Some (Inr a5)"
    using assms unfolding unf 4
    by (cases "advancePosition g2 ?svc ?granted" rule: result_cases) simp_all
  obtain arr svc1 g3 where asg: "a5 = (arr, svc1, g3)" by (cases a5)
  note 5 = a5 [unfolded asg]
  have 67: "(if arr then
               (case ArriveAtStop svc1 of
                  Inl e \<Rightarrow> Some (Inl e)
                | Inr svc2 \<Rightarrow>
                   Some (Inr (t\<lparr>graph := g3, services := (services t)[i := svc2]\<rparr>)))
             else
               Some (Inr (t\<lparr>graph := g3,
                           services := (services t)
                             [i := svc1\<lparr>Velocity := nv', State := ns'\<rparr>]\<rparr>))) = Some (Inr t')"
    using assms unfolding unf 4 5 by simp
  have 6: "arr \<Longrightarrow> \<exists>svc2. ArriveAtStop svc1 = Inr svc2 \<and>
               t' = t\<lparr>graph := g3, services := (services t)[i := svc2]\<rparr>"
    using 67 by (cases "ArriveAtStop svc1") auto
  have 7: "\<not> arr \<Longrightarrow> t' = t\<lparr>graph := g3,
                        services := (services t)[i := svc1\<lparr>Velocity := nv', State := ns'\<rparr>]\<rparr>"
    using 67 by simp
  show ?thesis by (rule that [OF 1 2 3 4 5 6 7])
qed

lemma same_static_refl: "same_static s s"
  by (simp add: same_static_def)

lemma same_static_trans: "same_static a b \<Longrightarrow> same_static b c \<Longrightarrow> same_static a c"
  by (simp add: same_static_def)

lemma moved_static: "moved s s' \<Longrightarrow> same_static s s'"
  by (simp add: moved_def same_static_def)

lemma startDwell_static: "startDwell s = Inr s' \<Longrightarrow> same_static s s'"
  by (drule startDwell_result) (simp add: same_static_def)

lemma same_static_update:
  "same_static s s' \<Longrightarrow> same_static s (s'\<lparr>Velocity := v, State := st\<rparr>)"
  by (simp add: same_static_def)

lemma moveService_frame:
  assumes "moveService dt m i t = Some (Inr t')"
  shows "\<exists>g' s'. t' = t\<lparr>graph := g', services := (services t)[i := s']\<rparr> \<and>
                 same_static (services t ! i) s'"
proof (rule moveService_SomeD [OF assms])
  fix p nv' ns' arr svc1 g2 g3
  assume adv: "advancePosition g2 (services t ! i)
       (min p (computeMaxAllowedDistance (services t) (services t ! i) m)) =
     Some (Inr (arr, svc1, g3))" and
    a: "arr \<Longrightarrow> \<exists>svc2. ArriveAtStop svc1 = Inr svc2 \<and>
               t' = t\<lparr>graph := g3, services := (services t)[i := svc2]\<rparr>" and
    b: "\<not> arr \<Longrightarrow> t' = t\<lparr>graph := g3,
                        services := (services t)[i := svc1\<lparr>Velocity := nv', State := ns'\<rparr>]\<rparr>"
  have st: "same_static (services t ! i) svc1"
    by (rule moved_static [OF advancePosition_moved [OF adv]])
  show ?thesis
  proof (cases arr)
    case True
    from a [OF True] obtain svc2 where s2: "ArriveAtStop svc1 = Inr svc2"
      and t': "t' = t\<lparr>graph := g3, services := (services t)[i := svc2]\<rparr>" by blast
    from s2 have "same_static svc1 svc2"
      by (simp add: ArriveAtStop_def startDwell_static)
    with st have "same_static (services t ! i) svc2" by (rule same_static_trans)
    with t' show ?thesis by blast
  next
    case False
    from b [OF False] same_static_update [OF st] show ?thesis by blast
  qed
qed

lemma AdvanceDwell_static: "AdvanceDwell s dt = Inr s' \<Longrightarrow> same_static s s'"
proof -
  assume a: "AdvanceDwell s dt = Inr s'"
  show ?thesis
  proof (cases "State s = StateDwelling")
    case True
    with a show ?thesis
      by (auto simp: AdvanceDwell_dwelling same_static_def split: if_splits)
  next
    case False
    with a obtain s1 where s1: "startDwell s = Inr s1"
      by (cases "startDwell s") (simp_all add: AdvanceDwell_def)
    from a False s1 have "same_static s1 s'"
      by (auto simp: AdvanceDwell_def endDwell_def Let_def same_static_def split: if_splits)
    with startDwell_static [OF s1] show ?thesis by (rule same_static_trans)
  qed
qed

lemma TMS_services_id: "t\<lparr>graph := graph t, services := (services t)[i := services t ! i]\<rparr> = t"
  by simp

lemma stepService_frame:
  assumes "stepService dt m i t = Some (Inr t')"
  shows "\<exists>g' s'. t' = t\<lparr>graph := g', services := (services t)[i := s']\<rparr> \<and>
                 same_static (services t ! i) s'"
proof (cases "State (services t ! i)")
  case StateStationary
  show ?thesis
  proof (cases "curTime t < DepartureDelay (services t ! i)")
    case True
    with assms StateStationary have "t' = t" by (simp add: stepService_def Let_def)
    then have "t' = t\<lparr>graph := graph t, services := (services t)[i := services t ! i]\<rparr>"
      by simp
    with same_static_refl show ?thesis by blast
  next
    case False
    with assms StateStationary
    have "t' = t\<lparr>services := (services t)[i := (services t ! i)\<lparr>State := StateAccelerating\<rparr>]\<rparr>"
      by (simp add: stepService_def Let_def)
    then have "t' = t\<lparr>graph := graph t,
                        services := (services t)[i := (services t ! i)\<lparr>State := StateAccelerating\<rparr>]\<rparr>"
      by simp
    moreover have "same_static (services t ! i) ((services t ! i)\<lparr>State := StateAccelerating\<rparr>)"
      by (simp add: same_static_def)
    ultimately show ?thesis by blast
  qed
next
  case StateDwelling
  with assms obtain s' where s': "AdvanceDwell (services t ! i) dt = Inr s'"
    and t': "t' = t\<lparr>services := (services t)[i := s']\<rparr>"
    by (cases "AdvanceDwell (services t ! i) dt") (simp_all add: stepService_def Let_def)
  from t' have "t' = t\<lparr>graph := graph t, services := (services t)[i := s']\<rparr>" by simp
  with AdvanceDwell_static [OF s'] show ?thesis by blast
next
  case StateAccelerating
  with assms have "moveService dt m i t = Some (Inr t')" by (simp add: stepService_def Let_def)
  then show ?thesis by (rule moveService_frame)
next
  case StateDecelerating
  with assms have "moveService dt m i t = Some (Inr t')" by (simp add: stepService_def Let_def)
  then show ?thesis by (rule moveService_frame)
next
  case StateCruising
  with assms have "moveService dt m i t = Some (Inr t')" by (simp add: stepService_def Let_def)
  then show ?thesis by (rule moveService_frame)
qed

lemma stepService_others:
  assumes "stepService dt m i t = Some (Inr t')"
  shows "meta t' = meta t" and "curTime t' = curTime t"
    and "length (services t') = length (services t)"
    and "j \<noteq> i \<Longrightarrow> services t' ! j = services t ! j"
    and "j < length (services t) \<Longrightarrow> same_static (services t ! j) (services t' ! j)"
proof -
  from stepService_frame [OF assms] obtain g' s' where
    t': "t' = t\<lparr>graph := g', services := (services t)[i := s']\<rparr>"
    and st: "same_static (services t ! i) s'" by blast
  show "meta t' = meta t" by (simp add: t')
  show "curTime t' = curTime t" by (simp add: t')
  show "length (services t') = length (services t)" by (simp add: t')
  show "j \<noteq> i \<Longrightarrow> services t' ! j = services t ! j" by (simp add: t')
  show "j < length (services t) \<Longrightarrow> same_static (services t ! j) (services t' ! j)"
    using st by (cases "j = i") (simp_all add: t' same_static_refl)
qed

lemma pass2_frame:
  "pass2 dt m js t = Some (Inr t') \<Longrightarrow>
   meta t' = meta t \<and> curTime t' = curTime t \<and>
   length (services t') = length (services t) \<and>
   (\<forall>j. j \<notin> set js \<longrightarrow> services t' ! j = services t ! j) \<and>
   (\<forall>j < length (services t). same_static (services t ! j) (services t' ! j))"
proof (induction js arbitrary: t)
  case Nil
  then show ?case by (simp add: same_static_refl)
next
  case (Cons i rest)
  from Cons.prems obtain t1 where 1: "stepService dt m i t = Some (Inr t1)"
    and 2: "pass2 dt m rest t1 = Some (Inr t')"
    by (cases "stepService dt m i t" rule: result_cases) simp_all
  note f = stepService_others [OF 1]
  note IH = Cons.IH [OF 2]
  show ?case
  proof (intro conjI allI impI)
    show "meta t' = meta t" using IH f(1) by simp
    show "curTime t' = curTime t" using IH f(2) by simp
    show "length (services t') = length (services t)" using IH f(3) by simp
  next
    fix j assume "j \<notin> set (i # rest)"
    then have "j \<noteq> i" "j \<notin> set rest" by simp_all
    with IH f(4) [of j] show "services t' ! j = services t ! j" by simp
  next
    fix j assume j: "j < length (services t)"
    then have "same_static (services t ! j) (services t1 ! j)" by (rule f(5))
    moreover from j f(3) IH have "same_static (services t1 ! j) (services t' ! j)" by simp
    ultimately show "same_static (services t ! j) (services t' ! j)" by (rule same_static_trans)
  qed
qed

lemma pass2_append:
  "pass2 dt m (xs @ ys) t =
     (case pass2 dt m xs t of
        None \<Rightarrow> None
      | Some (Inl e) \<Rightarrow> Some (Inl e)
      | Some (Inr t1) \<Rightarrow> pass2 dt m ys t1)"
proof (induction xs arbitrary: t)
  case Nil
  show ?case by simp
next
  case (Cons i xs)
  show ?case
    by (cases "stepService dt m i t" rule: result_cases) (simp_all add: Cons.IH)
qed

lemma step_SomeD:
  assumes "step t = Some (Inr (row, t'))"
  obtains minMAs where
    "pass1 (services t) Map.empty = Inr minMAs"
    "pass2 (TimeStep (meta t)) minMAs [0..<length (services t)] t = Some (Inr t')"
    "row = \<lparr>Timestamp = curTime t', ServiceLogs = map GetLog (services t')\<rparr>"
proof -
  obtain minMAs where 1: "pass1 (services t) Map.empty = Inr minMAs"
    using assms by (cases "pass1 (services t) Map.empty") (simp_all add: step_def Let_def)
  obtain t2 where 2: "pass2 (TimeStep (meta t)) minMAs [0..<length (services t)] t = Some (Inr t2)"
    using assms 1
    by (cases "pass2 (TimeStep (meta t)) minMAs [0..<length (services t)] t" rule: result_cases)
       (simp_all add: step_def Let_def)
  from assms 1 2 have 3: "t2 = t'"
    and 4: "row = \<lparr>Timestamp = curTime t', ServiceLogs = map GetLog (services t')\<rparr>"
    by (auto simp: step_def Let_def)
  show ?thesis by (rule that [OF 1 2 [unfolded 3] 4])
qed

lemma step_frame:
  assumes "step t = Some (Inr (row, t'))"
  shows "meta t' = meta t" and "curTime t' = curTime t" and "Timestamp row = curTime t"
    and "length (services t') = length (services t)"
    and "ServiceLogs row = map GetLog (services t')"
    and "j < length (services t) \<Longrightarrow> same_static (services t ! j) (services t' ! j)"
proof -
  from assms obtain minMAs where
    2: "pass2 (TimeStep (meta t)) minMAs [0..<length (services t)] t = Some (Inr t')" and
    3: "row = \<lparr>Timestamp = curTime t', ServiceLogs = map GetLog (services t')\<rparr>"
    by (rule step_SomeD) blast
  note f = pass2_frame [OF 2]
  show "meta t' = meta t" using f by simp
  show "curTime t' = curTime t" using f by simp
  show "Timestamp row = curTime t" using f 3 by simp
  show "length (services t') = length (services t)" using f by simp
  show "ServiceLogs row = map GetLog (services t')" using 3 by simp
  show "j < length (services t) \<Longrightarrow> same_static (services t ! j) (services t' ! j)"
    using f by simp
qed

text \<open>What a step does to the service at index \<open>i\<close>: the services before it are processed,
  then \<open>stepService\<close> runs on it, and the services after it leave it alone.\<close>

lemma step_service:
  assumes "step t = Some (Inr (row, t'))" and "i < length (services t)"
  obtains minMAs t1 t2 where
    "pass1 (services t) Map.empty = Inr minMAs"
    "pass2 (TimeStep (meta t)) minMAs [0..<i] t = Some (Inr t1)"
    "stepService (TimeStep (meta t)) minMAs i t1 = Some (Inr t2)"
    "services t1 ! i = services t ! i"
    "services t' ! i = services t2 ! i"
    "meta t1 = meta t" "curTime t1 = curTime t"
    "length (services t1) = length (services t)"
proof -
  let ?dt = "TimeStep (meta t)"
  from assms(1) obtain minMAs where
    1: "pass1 (services t) Map.empty = Inr minMAs" and
    2: "pass2 ?dt minMAs [0..<length (services t)] t = Some (Inr t')"
    by (rule step_SomeD) blast
  from assms(2) have upt_split: "[0..<length (services t)] = [0..<i] @ (i # [Suc i..<length (services t)])"
    using upt_add_eq_append [of 0 i "length (services t) - i"] upt_conv_Cons [of i "length (services t)"]
    by simp
  from 2 have two: "pass2 ?dt minMAs ([0..<i] @ (i # [Suc i..<length (services t)])) t = Some (Inr t')"
    by (simp only: upt_split [symmetric])
  obtain t1 where a: "pass2 ?dt minMAs [0..<i] t = Some (Inr t1)"
    and b: "pass2 ?dt minMAs (i # [Suc i..<length (services t)]) t1 = Some (Inr t')"
    using two unfolding pass2_append
    by (cases "pass2 ?dt minMAs [0..<i] t" rule: result_cases) simp_all
  obtain t2 where c: "stepService ?dt minMAs i t1 = Some (Inr t2)"
    and d: "pass2 ?dt minMAs [Suc i..<length (services t)] t2 = Some (Inr t')"
    using b by (cases "stepService ?dt minMAs i t1" rule: result_cases) simp_all
  note fa = pass2_frame [OF a]
  note fd = pass2_frame [OF d]
  have e: "services t1 ! i = services t ! i" using fa by simp
  have f: "services t' ! i = services t2 ! i" using fd by simp
  show ?thesis
    by (rule that [OF 1 a c e f]) (use fa in simp_all)
qed

section \<open>The loop of Run\<close>

lemma runSteps_SucD:
  assumes "runSteps (Suc n) t = Some (rows, t'')"
  obtains row t' rest where
    "step t = Some (Inr (row, t'))"
    "runSteps n (t'\<lparr>curTime := curTime t' + TimeStep (meta t')\<rparr>) = Some (rest, t'')"
    "rows = row # rest"
proof -
  obtain a where a: "step t = Some (Inr a)"
    using assms by (cases "step t" rule: result_cases) simp_all
  obtain row t' where rt: "a = (row, t')" by (cases a)
  note 1 = a [unfolded rt]
  let ?t2 = "t'\<lparr>curTime := curTime t' + TimeStep (meta t')\<rparr>"
  obtain b where b: "runSteps n ?t2 = Some b"
    using assms 1 by (cases "runSteps n ?t2") simp_all
  obtain rest t3 where b2: "b = (rest, t3)" by (cases b)
  from assms 1 b b2 have "rows = row # rest" "t3 = t''" by simp_all
  with b b2 have 2: "runSteps n ?t2 = Some (rest, t'')" by simp
  show ?thesis by (rule that [OF 1 2 \<open>rows = row # rest\<close>])
qed

lemma runSteps_rows:
  "runSteps n t = Some (rows, t') \<Longrightarrow>
   length rows = n \<and> meta t' = meta t \<and>
   curTime t' = curTime t + real n * TimeStep (meta t) \<and>
   (\<forall>i < n. Timestamp (rows ! i) = curTime t + real i * TimeStep (meta t))"
proof (induction n arbitrary: t rows)
  case 0
  then show ?case by simp
next
  case (Suc n)
  from Suc.prems obtain row t1 rest where
    1: "step t = Some (Inr (row, t1))" and
    2: "runSteps n (t1\<lparr>curTime := curTime t1 + TimeStep (meta t1)\<rparr>) = Some (rest, t')" and
    3: "rows = row # rest"
    by (rule runSteps_SucD)
  note f = step_frame [OF 1]
  note IH = Suc.IH [OF 2]
  have len: "length rows = Suc n" using IH 3 by simp
  have m: "meta t' = meta t" using IH f(1) by simp
  have c: "curTime t' = curTime t + real (Suc n) * TimeStep (meta t)"
    using IH f(1) f(2) by (simp add: algebra_simps)
  have ts: "Timestamp (rows ! i) = curTime t + real i * TimeStep (meta t)" if "i < Suc n" for i
  proof (cases i)
    case 0
    then show ?thesis using 3 f(3) by simp
  next
    case (Suc k)
    with that have "k < n" by simp
    with IH have "Timestamp (rest ! k) = curTime t1 + TimeStep (meta t1) + real k * TimeStep (meta t1)"
      by simp
    then show ?thesis using 3 Suc f(1) f(2) by (simp add: algebra_simps)
  qed
  from len m c ts show ?case by blast
qed

lemma loop_count_zero:
  fixes T c dt :: real
  assumes "0 < dt" and "nat (\<lfloor>(T - c) / dt\<rfloor> + 1) = 0"
  shows "\<not> c \<le> T"
proof
  assume "c \<le> T"
  with assms(1) have "0 \<le> (T - c) / dt" by simp
  then have "0 \<le> \<lfloor>(T - c) / dt\<rfloor>" by simp
  with assms(2) show False by simp
qed

lemma loop_count_Suc:
  fixes T c dt :: real
  assumes "0 < dt" and "nat (\<lfloor>(T - c) / dt\<rfloor> + 1) = Suc n"
  shows "c \<le> T" and "nat (\<lfloor>(T - (c + dt)) / dt\<rfloor> + 1) = n"
proof -
  from assms(2) have fl: "0 \<le> \<lfloor>(T - c) / dt\<rfloor>" by linarith
  then have "0 \<le> (T - c) / dt" by simp
  with assms(1) show "c \<le> T" by (simp add: zero_le_divide_iff)
  have "(T - (c + dt)) / dt = (T - c) / dt - 1"
    using assms(1) by (simp add: field_simps)
  then have "\<lfloor>(T - (c + dt)) / dt\<rfloor> = \<lfloor>(T - c) / dt\<rfloor> - 1" by simp
  with assms(2) show "nat (\<lfloor>(T - (c + dt)) / dt\<rfloor> + 1) = n" by simp
qed

lemma runLoop_steps:
  assumes "0 < TimeStep (meta t)"
    and "runSteps n t = Some (rows, t')"
    and "nat (\<lfloor>(RunTime (meta t) - curTime t) / TimeStep (meta t)\<rfloor> + 1) = n"
  shows "runLoop t lg = Some (Inr (lg\<lparr>Output := Output lg @ rows\<rparr>))"
  using assms
proof (induction n arbitrary: t lg rows)
  case 0
  from loop_count_zero [OF "0.prems"(1) "0.prems"(3)]
  have "\<not> curTime t \<le> RunTime (meta t)" .
  moreover from "0.prems"(2) have "rows = []" by simp
  ultimately show ?case by (subst runLoop.simps) simp
next
  case (Suc n)
  from Suc.prems(2) obtain row t1 rest where
    1: "step t = Some (Inr (row, t1))" and
    2: "runSteps n (t1\<lparr>curTime := curTime t1 + TimeStep (meta t1)\<rparr>) = Some (rest, t')" and
    3: "rows = row # rest"
    by (rule runSteps_SucD)
  note f = step_frame [OF 1]
  let ?t2 = "t1\<lparr>curTime := curTime t1 + TimeStep (meta t1)\<rparr>"
  note lc = loop_count_Suc [OF Suc.prems(1) Suc.prems(3)]
  have dt2: "0 < TimeStep (meta ?t2)" using Suc.prems(1) f(1) by simp
  have n2: "nat (\<lfloor>(RunTime (meta ?t2) - curTime ?t2) / TimeStep (meta ?t2)\<rfloor> + 1) = n"
    using lc(2) f(1) f(2) by simp
  have "runLoop t lg = runLoop ?t2 (lg\<lparr>Output := Output lg @ [row]\<rparr>)"
    by (subst runLoop.simps) (simp add: lc(1) 1)
  also have "\<dots> = Some (Inr (lg\<lparr>Output := Output lg @ [row]\<rparr>\<lparr>Output := Output (lg\<lparr>Output := Output lg @ [row]\<rparr>) @ rest\<rparr>))"
    by (rule Suc.IH [OF dt2 2 n2])
  also have "\<dots> = Some (Inr (lg\<lparr>Output := Output lg @ rows\<rparr>))"
    by (simp add: 3)
  finally show ?case .
qed

lemma runLoop_step_fails:
  assumes "runSteps n t = Some (rows, t')"
    and "\<forall>i < n. curTime t + real i * TimeStep (meta t) \<le> RunTime (meta t)"
    and "curTime t' \<le> RunTime (meta t')" and "step t' = Some (Inl e)"
  shows "runLoop t lg = Some (Inl (AtTime (curTime t') e))"
  using assms
proof (induction n arbitrary: t lg rows)
  case 0
  then have "t' = t" by simp
  with "0.prems" show ?case by (subst runLoop.simps) simp
next
  case (Suc n)
  from Suc.prems(1) obtain row t1 rest where
    1: "step t = Some (Inr (row, t1))" and
    2: "runSteps n (t1\<lparr>curTime := curTime t1 + TimeStep (meta t1)\<rparr>) = Some (rest, t')" and
    3: "rows = row # rest"
    by (rule runSteps_SucD)
  note f = step_frame [OF 1]
  let ?t2 = "t1\<lparr>curTime := curTime t1 + TimeStep (meta t1)\<rparr>"
  from Suc.prems(2) have c0: "curTime t \<le> RunTime (meta t)" by force
  have later: "\<forall>i < n. curTime ?t2 + real i * TimeStep (meta ?t2) \<le> RunTime (meta ?t2)"
  proof (intro allI impI)
    fix i assume "i < n"
    then have "Suc i < Suc n" by simp
    with Suc.prems(2) have "curTime t + real (Suc i) * TimeStep (meta t) \<le> RunTime (meta t)"
      by blast
    then show "curTime ?t2 + real i * TimeStep (meta ?t2) \<le> RunTime (meta ?t2)"
      using f(1) f(2) by (simp add: algebra_simps)
  qed
  have "runLoop t lg = runLoop ?t2 (lg\<lparr>Output := Output lg @ [row]\<rparr>)"
    by (subst runLoop.simps) (simp add: c0 1)
  also have "\<dots> = Some (Inl (AtTime (curTime t') e))"
    by (rule Suc.IH [OF 2 later Suc.prems(3) Suc.prems(4)])
  finally show ?case .
qed

section \<open>Queries leave the network alone\<close>

lemma graph_static_refl: "graph_static g g"
  by (simp add: graph_static_def)

lemma graph_static_trans: "graph_static a b \<Longrightarrow> graph_static b c \<Longrightarrow> graph_static a c"
  by (simp add: graph_static_def)

lemma computeShortestPaths_static: "computeShortestPaths g = Some g' \<Longrightarrow> graph_static g g'"
  by (auto simp: computeShortestPaths_def Let_def graph_static_def split: option.splits prod.splits)

lemma ensureShortestPaths_static: "ensureShortestPaths g = Some g' \<Longrightarrow> graph_static g g'"
  by (auto simp: ensureShortestPaths_def computeShortestPaths_static graph_static_refl split: if_splits)

lemma GetShortestPath_static:
  assumes "GetShortestPath g a b = Some (r, g')"
  shows "graph_static g g'"
proof (cases "a = b")
  case True
  with assms show ?thesis by (simp add: GetShortestPath_def graph_static_refl)
next
  case ne: False
  show ?thesis
  proof (cases "pathCache g (pathKey a b)")
    case (Some p)
    with assms ne show ?thesis by (simp add: GetShortestPath_def Let_def graph_static_refl)
  next
    case None
    show ?thesis
    proof (cases "ensureShortestPaths g")
      case nopaths: None
      with assms ne None show ?thesis by (simp add: GetShortestPath_def Let_def graph_static_refl)
    next
      case (Some g1)
      note g1 = ensureShortestPaths_static [OF Some]
      have "graph_static g1 g'"
        using assms ne None Some
        by (auto simp: GetShortestPath_def Let_def graph_static_def
            split: option.splits xreal.splits)
      with g1 show ?thesis by (rule graph_static_trans)
    qed
  qed
qed

lemma GetEdge_edgeByNodes:
  "GetEdge g u v = Inr e \<Longrightarrow> table_get (edgeByNodes g) u v = Some e"
  by (auto simp: GetEdge_def table_get_def split: option.splits)

lemma GetNextEdge_static:
  assumes "GetNextEdge g a b = Some (r, g')"
  shows "graph_static g g'"
    and "r = Inr e \<Longrightarrow> \<exists>u v. table_get (edgeByNodes g) u v = Some e"
proof -
  obtain q g1 where q: "GetShortestPath g a b = Some (q, g1)"
    using assms by (cases "GetShortestPath g a b") (auto simp: GetNextEdge_def)
  note st = GetShortestPath_static [OF q]
  from assms q have g': "g' = g1"
    by (cases q) (auto simp: GetNextEdge_def split: if_splits)
  with st show "graph_static g g'" by simp
  assume "r = Inr e"
  with assms q g' obtain u v where "GetEdge g1 u v = Inr e"
    by (cases q) (auto simp: GetNextEdge_def split: if_splits)
  from GetEdge_edgeByNodes [OF this] st show "\<exists>u v. table_get (edgeByNodes g) u v = Some e"
    by (auto simp: graph_static_def)
qed

lemma GetEdgeByID_edgeMap: "GetEdgeByID g eid = Inr e \<longleftrightarrow> edgeMap g eid = Some e"
  by (auto simp: GetEdgeByID_def split: option.splits)

lemma GetEdgeByID_static: "graph_static g g' \<Longrightarrow> GetEdgeByID g' eid = GetEdgeByID g eid"
  by (simp add: GetEdgeByID_def graph_static_def)

lemma distanceToNextStop_static:
  assumes "distanceToNextStop g svc = Some (Inr (d, g'))"
  shows "graph_static g g'"
proof -
  obtain edge where e: "GetEdgeByID g (Pos_Edge (CurrentPosition svc)) = Inr edge"
    using assms by (cases "GetEdgeByID g (Pos_Edge (CurrentPosition svc))")
      (simp_all add: distanceToNextStop_def)
  show ?thesis
  proof (cases "Edge_V edge = NextStop svc")
    case True
    with assms e show ?thesis by (simp add: distanceToNextStop_def Let_def graph_static_refl)
  next
    case False
    with assms e obtain q g1 where q: "GetShortestPath g (Edge_V edge) (NextStop svc) = Some (q, g1)"
      by (cases "GetShortestPath g (Edge_V edge) (NextStop svc)")
         (auto simp: distanceToNextStop_def Let_def)
    from assms e False q have "g' = g1"
      by (cases q) (auto simp: distanceToNextStop_def Let_def)
    with GetShortestPath_static [OF q] show ?thesis by simp
  qed
qed

lemma getSpeedLimitInfo_SomeD:
  assumes "getSpeedLimitInfo g svc = Some (Inr (sl, g'))"
  obtains edge m where
    "GetEdgeByID g (Pos_Edge (CurrentPosition svc)) = Inr edge"
    "Kinem (Vehicle svc) = Some m"
    "currentMax sl = (case SpeedLimit edge of None \<Rightarrow> VMax m | Some l \<Rightarrow> min l (VMax m))"
    "distToChange sl = Edge_Length edge - DistanceAlongEdge (CurrentPosition svc)"
    "Edge_V edge = NextStop svc \<Longrightarrow> nextMax sl = 0"
    "graph_static g g'"
proof -
  obtain edge where e: "GetEdgeByID g (Pos_Edge (CurrentPosition svc)) = Inr edge"
    using assms by (cases "GetEdgeByID g (Pos_Edge (CurrentPosition svc))")
      (simp_all add: getSpeedLimitInfo_def)
  obtain m where m: "Kinem (Vehicle svc) = Some m"
    using assms e by (cases "Kinem (Vehicle svc)") (simp_all add: getSpeedLimitInfo_def)
  let ?cm = "case SpeedLimit edge of None \<Rightarrow> VMax m | Some l \<Rightarrow> if l < VMax m then l else VMax m"
  have cm: "?cm = (case SpeedLimit edge of None \<Rightarrow> VMax m | Some l \<Rightarrow> min l (VMax m))"
    by (cases "SpeedLimit edge") (simp_all add: min_def)
  show ?thesis
  proof (cases "Edge_V edge = NextStop svc")
    case True
    with assms e m have sl: "sl = \<lparr>currentMax = ?cm,
        distToChange = Edge_Length edge - DistanceAlongEdge (CurrentPosition svc), nextMax = 0\<rparr>"
      and g': "g' = g"
      by (simp_all add: getSpeedLimitInfo_def Let_def)
    show ?thesis
      by (rule that [OF e m]) (simp_all add: sl g' cm graph_static_refl)
  next
    case False
    with assms e m obtain r g1 where q: "GetNextEdge g (Edge_V edge) (NextStop svc) = Some (r, g1)"
      by (cases "GetNextEdge g (Edge_V edge) (NextStop svc)")
         (auto simp: getSpeedLimitInfo_def Let_def)
    from assms e m False q have sl: "currentMax sl = ?cm"
      "distToChange sl = Edge_Length edge - DistanceAlongEdge (CurrentPosition svc)"
      and g': "g' = g1"
      by (auto simp: getSpeedLimitInfo_def Let_def)
    show ?thesis
      by (rule that [OF e m]) (use False GetNextEdge_static(1) [OF q] in \<open>simp_all add: sl g' cm\<close>)
  qed
qed

lemma advancePosition_static_aux:
  assumes "advancePosition g0 svc0 d0 = Some r0"
  shows "\<forall>arr svc' g'. r0 = Inr (arr, svc', g') \<longrightarrow> graph_static g0 g'"
proof (rule advancePosition.raw_induct
    [where P = "\<lambda>g svc d r. \<forall>arr svc' g'. r = Inr (arr, svc', g') \<longrightarrow> graph_static g g'",
     OF _ assms])
  fix adv :: "Graph \<Rightarrow> SimService \<Rightarrow> real \<Rightarrow> (error + (bool \<times> SimService \<times> Graph)) option"
  fix g svc d r
  assume IH: "\<And>g svc d y. adv g svc d = Some y \<Longrightarrow>
                \<forall>arr svc' g'. y = Inr (arr, svc', g') \<longrightarrow> graph_static g g'"
  assume body: "(if d > 0 then
        (case GetEdgeByID g (Pos_Edge (CurrentPosition svc)) of
           Inl e \<Rightarrow> Some (Inl e)
         | Inr edge \<Rightarrow>
            if d < Edge_Length edge - DistanceAlongEdge (CurrentPosition svc) then
              Some (Inr (False,
                svc\<lparr>CurrentPosition := (CurrentPosition svc)
                      \<lparr>DistanceAlongEdge := DistanceAlongEdge (CurrentPosition svc) + d\<rparr>\<rparr>, g))
            else if Edge_V edge = NextStop svc then
              Some (Inr (True,
                svc\<lparr>CurrentPosition := (CurrentPosition svc)
                      \<lparr>DistanceAlongEdge := Edge_Length edge\<rparr>\<rparr>, g))
            else
              (case GetNextEdge g (Edge_V edge) (NextStop svc) of
                 None \<Rightarrow> None
               | Some (Inl e, g') \<Rightarrow> Some (Inl (Wrapped (''advancing past edge '' @ Edge_ID edge) e))
               | Some (Inr nextEdge, g') \<Rightarrow>
                  adv g'
                    (svc\<lparr>CurrentPosition := \<lparr>Pos_Edge = Edge_ID nextEdge, DistanceAlongEdge = 0\<rparr>\<rparr>)
                    (d - (Edge_Length edge - DistanceAlongEdge (CurrentPosition svc)))))
      else Some (Inr (False, svc, g))) = Some r"
  show "\<forall>arr svc' g'. r = Inr (arr, svc', g') \<longrightarrow> graph_static g g'"
  proof (cases "d > 0")
    case False
    with body show ?thesis by (auto simp: graph_static_refl)
  next
    case pos: True
    show ?thesis
    proof (cases "GetEdgeByID g (Pos_Edge (CurrentPosition svc))")
      case (Inl e)
      with body pos show ?thesis by auto
    next
      case (Inr edge)
      show ?thesis
      proof (cases "d < Edge_Length edge - DistanceAlongEdge (CurrentPosition svc)")
        case True
        with body pos Inr show ?thesis by (auto simp: graph_static_refl)
      next
        case far: False
        show ?thesis
        proof (cases "Edge_V edge = NextStop svc")
          case True
          with body pos Inr far show ?thesis by (auto simp: graph_static_refl)
        next
          case onward: False
          show ?thesis
          proof (cases "GetNextEdge g (Edge_V edge) (NextStop svc)")
            case None
            with body pos Inr far onward show ?thesis by simp
          next
            case (Some q)
            obtain res g1 where q: "q = (res, g1)" by (cases q)
            note st = GetNextEdge_static(1) [OF Some [unfolded q]]
            show ?thesis
            proof (cases res)
              case (Inl e)
              with body pos Inr far onward Some q show ?thesis by auto
            next
              case nxt: (Inr nextEdge)
              let ?svc2 = "svc\<lparr>CurrentPosition := \<lparr>Pos_Edge = Edge_ID nextEdge, DistanceAlongEdge = 0\<rparr>\<rparr>"
              from body pos Inr far onward Some q nxt
              have "adv g1 ?svc2 (d - (Edge_Length edge - DistanceAlongEdge (CurrentPosition svc))) = Some r"
                by simp
              from IH [OF this] have "\<forall>arr svc' g'. r = Inr (arr, svc', g') \<longrightarrow> graph_static g1 g'" .
              then show ?thesis
                using graph_static_trans [OF st] by blast
            qed
          qed
        qed
      qed
    qed
  qed
qed

lemma advancePosition_static:
  "advancePosition g svc d = Some (Inr (arr, svc', g')) \<Longrightarrow> graph_static g g'"
  using advancePosition_static_aux by blast

lemma moveService_static:
  assumes "moveService dt m i t = Some (Inr t')"
  shows "graph_static (graph t) (graph t')"
proof (rule moveService_SomeD [OF assms])
  fix d g1 sl g2 p nv ns nv' ns' arr svc1 g3
  assume 1: "distanceToNextStop (graph t) (services t ! i) = Some (Inr (d, g1))"
    and 2: "getSpeedLimitInfo g1 (services t ! i) = Some (Inr (sl, g2))"
    and 5: "advancePosition g2 (services t ! i)
       (min p (computeMaxAllowedDistance (services t) (services t ! i) m)) =
     Some (Inr (arr, svc1, g3))"
    and a: "arr \<Longrightarrow> \<exists>svc2. ArriveAtStop svc1 = Inr svc2 \<and>
               t' = t\<lparr>graph := g3, services := (services t)[i := svc2]\<rparr>"
    and b: "\<not> arr \<Longrightarrow> t' = t\<lparr>graph := g3,
                        services := (services t)[i := svc1\<lparr>Velocity := nv', State := ns'\<rparr>]\<rparr>"
  have g2: "graph_static g1 g2" by (rule getSpeedLimitInfo_SomeD [OF 2])
  from a b have "graph t' = g3" by (cases arr) auto
  with graph_static_trans [OF graph_static_trans [OF distanceToNextStop_static [OF 1] g2]
        advancePosition_static [OF 5]]
  show ?thesis by simp
qed

lemma stepService_static:
  assumes "stepService dt m i t = Some (Inr t')"
  shows "graph_static (graph t) (graph t')"
proof (cases "State (services t ! i) = StateStationary \<or> State (services t ! i) = StateDwelling")
  case True
  with assms have "graph t' = graph t"
    by (auto simp: stepService_def Let_def split: if_splits sum.splits)
  then show ?thesis by (simp add: graph_static_def)
next
  case False
  with assms have "moveService dt m i t = Some (Inr t')"
    by (cases "State (services t ! i)") (simp_all add: stepService_def Let_def)
  then show ?thesis by (rule moveService_static)
qed

lemma pass2_static:
  "pass2 dt m js t = Some (Inr t') \<Longrightarrow> graph_static (graph t) (graph t')"
proof (induction js arbitrary: t)
  case Nil
  then show ?case by (simp add: graph_static_refl)
next
  case (Cons i rest)
  from Cons.prems obtain t1 where 1: "stepService dt m i t = Some (Inr t1)"
    and 2: "pass2 dt m rest t1 = Some (Inr t')"
    by (cases "stepService dt m i t" rule: result_cases) simp_all
  from stepService_static [OF 1] Cons.IH [OF 2] show ?case by (rule graph_static_trans)
qed

lemma step_static:
  assumes "step t = Some (Inr (row, t'))"
  shows "graph_static (graph t) (graph t')"
  by (rule step_SomeD [OF assms]) (rule pass2_static)

section \<open>Running the examples\<close>

text \<open>The defining equations of the model, for evaluating it on a concrete input.\<close>

lemmas graph_eval =
  NewGraph_def AddNode_def AddEdge_def emptyGraph_def GetPathStartPosition_def
  GetShortestPath_def pathKey_def ensureShortestPaths_def computeShortestPaths_def
  initTables_def initRow_def setEdge_def relax_def table_get_def table_set_def
  dist_get_def next_get_def reconstructPath_def reconstructLoop.simps
  GetEdge_def GetEdgeByID_def GetNextEdge_def Let_def

lemmas engine_eval =
  NewTMS_def GetFirstStop_def NewSimService_def RunInput_def Run_def runLoop.simps
  step_def stepService_def moveService_def distanceToNextStop_def getSpeedLimitInfo_def
  proposeMovement_def constrainedKinematics_def computeMaxAllowedDistance_def maxDistStep_def
  advancePosition.simps svc_BrakingDistance_def AdvanceDwell_def startDwell_def endDwell_def
  advanceNextStop_def ArriveAtStop_def GetLog_def startOf_def
  VMax_def BrakingDistance_def BrakingDistanceTo_def VelocityAfterBraking_def
  AccelerateStep_def DecelerateStep_def MaxFloat64_def

lemmas example_defs =
  nodeA_def nodeB_def nodeC_def edgeAB_def lineAB_def unitModel_def jumpModel_def
  noBrakes_def deadEndService_def deadEndInput_def shuttleService_def shuttleInput_def

lemma loop_count_bound:
  fixes T dt :: real
  assumes "0 < dt" and "k < nat (\<lfloor>T / dt\<rfloor> + 1)"
  shows "real k * dt \<le> T"
proof -
  from assms(2) have "int k \<le> \<lfloor>T / dt\<rfloor>" by linarith
  then have "real k \<le> T / dt" by (simp add: le_floor_iff)
  with assms(1) show ?thesis by (simp add: pos_le_divide_eq)
qed

text \<open>
  C3 as stated fails: a run is not bound to produce a log. In \<open>deadEndInput\<close> (run time 3,
  time step 1, so four rows are due) the service reaches \<open>B\<close>, its next stop \<open>C\<close> cannot be
  reached from there, and the step at \<open>t = 3\<close> fails: \<open>Run\<close> returns the error and no log.
\<close>

theorem Run_dead_end_counterexample:
  "0 < TimeStep (Input_Meta deadEndInput) \<and>
   \<lfloor>RunTime (Input_Meta deadEndInput) / TimeStep (Input_Meta deadEndInput)\<rfloor> + 1 = 4 \<and>
   RunInput deadEndInput =
     Some (Inl (AtTime 3
       (Wrapped ''service S1 distance to stop''
         (Wrapped ''no path to next stop C'' (NoPath ''B'' ''C'')))))"
  by (simp add: graph_eval engine_eval example_defs)

text \<open>
  C3, amended. Let the time step be positive and the run start at time 0, and let
  \<open>N = max 0 (floor (T / dt) + 1)\<close>. If each of the first \<open>N\<close> steps returns a row, \<open>Run\<close>
  returns a log made of exactly these \<open>N\<close> rows (\<open>floor (T / dt) + 1\<close> rows when \<open>T \<ge> 0\<close>,
  none when \<open>T < 0\<close>), and row \<open>i\<close> carries the timestamp \<open>i * dt\<close>. If instead the steps
  before step \<open>k < N\<close> return rows and step \<open>k\<close> fails, \<open>Run\<close> returns that error, tagged
  with the time \<open>k * dt\<close>, and no log.
\<close>

theorem Run_row_count:
  assumes "0 < TimeStep (meta t)" and "curTime t = 0"
  shows "(runSteps (nat (\<lfloor>RunTime (meta t) / TimeStep (meta t)\<rfloor> + 1)) t = Some (rows, t') \<longrightarrow>
            Run t = Some (Inr \<lparr>Log_Meta = meta t, Output = rows\<rparr>) \<and>
            length rows = nat (\<lfloor>RunTime (meta t) / TimeStep (meta t)\<rfloor> + 1) \<and>
            (0 \<le> RunTime (meta t) \<longrightarrow>
               int (length rows) = \<lfloor>RunTime (meta t) / TimeStep (meta t)\<rfloor> + 1) \<and>
            (\<forall>i < length rows. Timestamp (rows ! i) = real i * TimeStep (meta t))) \<and>
         (k < nat (\<lfloor>RunTime (meta t) / TimeStep (meta t)\<rfloor> + 1) \<and>
          runSteps k t = Some (rows0, tk) \<and> step tk = Some (Inl e) \<longrightarrow>
            Run t = Some (Inl (AtTime (real k * TimeStep (meta t)) e)))"
proof (intro conjI impI)
  let ?N = "nat (\<lfloor>RunTime (meta t) / TimeStep (meta t)\<rfloor> + 1)"
  assume rs: "runSteps ?N t = Some (rows, t')"
  have n: "nat (\<lfloor>(RunTime (meta t) - curTime t) / TimeStep (meta t)\<rfloor> + 1) = ?N"
    by (simp add: assms(2))
  from runLoop_steps [OF assms(1) rs n, of "\<lparr>Log_Meta = meta t, Output = []\<rparr>"]
  show "Run t = Some (Inr \<lparr>Log_Meta = meta t, Output = rows\<rparr>)"
    by (simp add: Run_def)
  note r = runSteps_rows [OF rs]
  from r show len: "length rows = ?N" by simp
  show "int (length rows) = \<lfloor>RunTime (meta t) / TimeStep (meta t)\<rfloor> + 1"
    if "0 \<le> RunTime (meta t)"
  proof -
    from that assms(1) have "0 \<le> RunTime (meta t) / TimeStep (meta t)" by simp
    then have "0 \<le> \<lfloor>RunTime (meta t) / TimeStep (meta t)\<rfloor>" by simp
    with len show ?thesis by simp
  qed
  show "\<forall>i < length rows. Timestamp (rows ! i) = real i * TimeStep (meta t)"
    using r assms(2) by simp
next
  let ?N = "nat (\<lfloor>RunTime (meta t) / TimeStep (meta t)\<rfloor> + 1)"
  assume a: "k < ?N \<and> runSteps k t = Some (rows0, tk) \<and> step tk = Some (Inl e)"
  then have k: "k < ?N" and rs: "runSteps k t = Some (rows0, tk)"
    and fails: "step tk = Some (Inl e)" by simp_all
  note r = runSteps_rows [OF rs]
  have ck: "curTime tk = real k * TimeStep (meta t)" using r assms(2) by simp
  have before: "\<forall>i < k. curTime t + real i * TimeStep (meta t) \<le> RunTime (meta t)"
  proof (intro allI impI)
    fix i assume "i < k"
    with k have "i < ?N" by simp
    from loop_count_bound [OF assms(1) this] show "curTime t + real i * TimeStep (meta t) \<le> RunTime (meta t)"
      by (simp add: assms(2))
  qed
  have now: "curTime tk \<le> RunTime (meta tk)"
    using loop_count_bound [OF assms(1) k] r ck by simp
  from runLoop_step_fails [OF rs before now fails, of "\<lparr>Log_Meta = meta t, Output = []\<rparr>"]
  show "Run t = Some (Inl (AtTime (real k * TimeStep (meta t)) e))"
    by (simp add: Run_def ck)
qed

end
